theory Spec2Isabelle
  imports Main
begin

section \<open>Shared data: thrown errors, labels, reviews, pull requests\<close>

text \<open>
  The actions are JavaScript handlers that talk to the GitHub API. An API call either
  returns a value or throws an error object whose \<open>message\<close> is a string; a thrown
  error is the \<open>Inl\<close> branch of a sum, a returned value the \<open>Inr\<close> branch. Console
  output has no influence on any result and is left out, except in the auto-merge
  manager, whose error handler is the subject of a property below.
\<close>

datatype error = Error (message: string)

record label =
  name :: string

record user =
  login :: string

record review =
  state :: string
  user :: user

record pull =
  labels :: "label list"
  draft :: bool
  node_id :: string

text \<open>\<open>String.prototype.includes\<close>: the needle occurs as a contiguous substring.\<close>

fun str_includes :: "string \<Rightarrow> string \<Rightarrow> bool" where
  "str_includes [] needle = (needle = [])"
| "str_includes (c # cs) needle = (take (length needle) (c # cs) = needle \<or> str_includes cs needle)"

text \<open>
  A lookup \<open>table[key]\<close> in a plain object finds the object's own keys and, failing
  that, the members every object inherits from \<open>Object.prototype\<close>. These are the
  inherited names; what is found under them is a function (an object for
  \<open>__proto__\<close>), which is truthy and is not a string.
\<close>

definition objectPrototypeKeys :: "string list" where
  "objectPrototypeKeys =
     [''constructor'', ''hasOwnProperty'', ''isPrototypeOf'', ''propertyIsEnumerable'',
      ''toLocaleString'', ''toString'', ''valueOf'', ''__defineGetter__'', ''__defineSetter__'',
      ''__lookupGetter__'', ''__lookupSetter__'', ''__proto__'']"

section \<open>pr-review-checker.js\<close>

text \<open>
  \<open>checkApproval\<close> awaits \<open>github.rest.pulls.listReviews\<close> outside any \<open>try\<close>; the
  outcome of that call is the first argument. A thrown error rejects the function.
  Every review has a state and an author with a login, as in the data model.
\<close>

definition approvals :: "review list \<Rightarrow> string \<Rightarrow> review list" where
  "approvals reviews prAuthor =
     filter (\<lambda>review. state review = ''APPROVED'' \<and> login (user review) \<noteq> prAuthor) reviews"

definition checkApproval :: "error + review list \<Rightarrow> string \<Rightarrow> error + bool" where
  "checkApproval listReviews prAuthor =
     (case listReviews of
        Inl e \<Rightarrow> Inl e
      | Inr reviews \<Rightarrow>
          (let hasApproval = (length (approvals reviews prAuthor) > 0)
           in Inr hasApproval))"

text \<open>
  \<open>determineQAStatus\<close>: on \<open>pull_request_review\<close> events the PR is fetched with
  \<open>github.rest.pulls.get\<close> (its outcome is the first argument) and the status is read
  from the label names; on every other event the job result decides and no call is
  made. \<open>qaResult\<close> is \<open>None\<close> when the input is undefined; \<open>!qaResult\<close> holds for
  undefined and for the empty string.
\<close>

definition labelNames :: "label list \<Rightarrow> string list" where
  "labelNames ls = map name ls"

definition qaStatusFromLabels :: "string list \<Rightarrow> string" where
  "qaStatusFromLabels ls =
     (if ''qa:success'' \<in> set ls then ''success''
      else if ''qa:failed'' \<in> set ls then ''failed''
      else if ''qa:running'' \<in> set ls then ''running''
      else if ''qa:pending'' \<in> set ls then ''pending''
      else ''pending'')"

definition qaStatusFromResult :: "string option \<Rightarrow> string" where
  "qaStatusFromResult qaResult =
     (if qaResult = Some ''success'' then ''success''
      else if qaResult = Some ''failure'' \<or> qaResult = Some ''cancelled'' then ''failed''
      else if qaResult = Some ''skipped'' \<or> qaResult = None \<or> qaResult = Some '''' then ''pending''
      else ''failed'')"

definition determineQAStatus ::
  "error + pull \<Rightarrow> string \<Rightarrow> string option \<Rightarrow> string option \<Rightarrow> error + string" where
  "determineQAStatus pullsGet eventName qaResult secretScanningResult =
     (if eventName = ''pull_request_review'' then
        (case pullsGet of
           Inl e \<Rightarrow> Inl e
         | Inr pr \<Rightarrow> Inr (qaStatusFromLabels (labelNames (labels pr))))
      else Inr (qaStatusFromResult qaResult))"

section \<open>The GitHub side of the label reconcilers\<close>

text \<open>
  The reconcilers read and write the labels of one pull request. The state of that pull
  request is the list of labels it carries and its draft flag; \<open>requests\<close> records every
  API request in the order it was issued. Which requests throw is decided by a fault
  table: \<open>faults c = Some e\<close> means that request \<open>c\<close> throws \<open>e\<close> and changes nothing.
  A request that succeeds has the effect GitHub documents: \<open>removeLabel\<close> takes the
  label off the pull request, \<open>addLabels\<close> puts each named label on it unless it is
  already there.

  Both reconcilers call \<open>github.rest.issues.listLabelsOnIssue\<close> once, with no
  \<open>per_page\<close> and without \<open>github.paginate\<close> (which the same files use for
  \<open>listLabelsForRepo\<close>). A single call answers one page, and the page size GitHub uses
  when none is asked for is 30: the read returns the first 30 labels of the pull request
  and no more. \<open>issueLabels\<close> keeps the labels in the order GitHub lists them, a newly
  added label last.
\<close>

datatype api_call =
    ListLabelsOnIssue
  | RemoveLabel string
  | AddLabels "string list"
  | PullsGet

record github =
  issueLabels :: "label list"
  prDraft :: bool
  prNodeId :: string
  requests :: "api_call list"

type_synonym faults = "api_call \<Rightarrow> error option"

definition noFaults :: faults where
  "noFaults = (\<lambda>c. None)"

definition request :: "api_call \<Rightarrow> github \<Rightarrow> github" where
  "request c gh = gh\<lparr>requests := requests gh @ [c]\<rparr>"

definition DEFAULT_PER_PAGE :: nat where
  "DEFAULT_PER_PAGE = 30"

definition listLabelsOnIssue :: "faults \<Rightarrow> github \<Rightarrow> (error + label list) \<times> github" where
  "listLabelsOnIssue faults gh =
     (case faults ListLabelsOnIssue of
        Some e \<Rightarrow> (Inl e, request ListLabelsOnIssue gh)
      | None \<Rightarrow> (Inr (take DEFAULT_PER_PAGE (issueLabels gh)), request ListLabelsOnIssue gh))"

definition removeLabel :: "faults \<Rightarrow> string \<Rightarrow> github \<Rightarrow> (error + unit) \<times> github" where
  "removeLabel faults nm gh =
     (case faults (RemoveLabel nm) of
        Some e \<Rightarrow> (Inl e, request (RemoveLabel nm) gh)
      | None \<Rightarrow>
          (Inr (), request (RemoveLabel nm)
                     (gh\<lparr>issueLabels := filter (\<lambda>l. name l \<noteq> nm) (issueLabels gh)\<rparr>)))"

definition putLabel :: "string \<Rightarrow> label list \<Rightarrow> label list" where
  "putLabel nm ls = (if nm \<in> set (labelNames ls) then ls else ls @ [\<lparr>name = nm\<rparr>])"

definition addLabels :: "faults \<Rightarrow> string list \<Rightarrow> github \<Rightarrow> (error + unit) \<times> github" where
  "addLabels faults nms gh =
     (case faults (AddLabels nms) of
        Some e \<Rightarrow> (Inl e, request (AddLabels nms) gh)
      | None \<Rightarrow>
          (Inr (), request (AddLabels nms)
                     (gh\<lparr>issueLabels := fold putLabel nms (issueLabels gh)\<rparr>)))"

definition pullsGet :: "faults \<Rightarrow> github \<Rightarrow> (error + pull) \<times> github" where
  "pullsGet faults gh =
     (case faults PullsGet of
        Some e \<Rightarrow> (Inl e, request PullsGet gh)
      | None \<Rightarrow>
          (Inr \<lparr>labels = issueLabels gh, draft = prDraft gh, node_id = prNodeId gh\<rparr>,
           request PullsGet gh))"

text \<open>
  The loop \<open>for (const label of labelsToRemove) { try { await removeLabel } catch { log } }\<close>
  of both reconcilers: a removal that throws is logged and the loop goes on.
\<close>

fun removeEach :: "faults \<Rightarrow> string list \<Rightarrow> github \<Rightarrow> github" where
  "removeEach faults [] gh = gh"
| "removeEach faults (l # ls) gh = removeEach faults ls (snd (removeLabel faults l gh))"

section \<open>build-status-labeler.js\<close>

definition QA_LABEL_NAMES :: "string list" where
  "QA_LABEL_NAMES = [''qa:pending'', ''qa:running'', ''qa:success'', ''qa:failed'']"

text \<open>The \<open>switch\<close> on \<open>workflowStatus\<close>; the empty string when no case matches.\<close>

definition desiredQaLabel :: "string \<Rightarrow> string" where
  "desiredQaLabel workflowStatus =
     (if workflowStatus = ''pending'' then ''qa:pending''
      else if workflowStatus = ''running'' then ''qa:running''
      else if workflowStatus = ''success'' then ''qa:success''
      else if workflowStatus = ''failure'' \<or> workflowStatus = ''cancelled'' then ''qa:failed''
      else [])"

definition updateBuildStatusLabel :: "faults \<Rightarrow> string \<Rightarrow> github \<Rightarrow> (error + unit) \<times> github" where
  "updateBuildStatusLabel faults workflowStatus gh =
     (let desiredLabel = desiredQaLabel workflowStatus in
      if desiredLabel = [] then (Inr (), gh)
      else
        (case listLabelsOnIssue faults gh of
           (Inl e, gh1) \<Rightarrow> (Inl e, gh1)
         | (Inr currentLabels, gh1) \<Rightarrow>
             (let currentLabelNames = labelNames currentLabels;
                  currentQaLabels = filter (\<lambda>l. l \<in> set QA_LABEL_NAMES) currentLabelNames
              in if length currentQaLabels = 1 \<and> currentQaLabels ! 0 = desiredLabel
                 then (Inr (), gh1)
                 else
                   (let labelsToRemove = filter (\<lambda>l. l \<noteq> desiredLabel) currentQaLabels;
                        needsToAdd = (desiredLabel \<notin> set currentQaLabels);
                        gh2 = removeEach faults labelsToRemove gh1;
                        gh3 = (if needsToAdd then snd (addLabels faults [desiredLabel] gh2)
                               else gh2)
                    in (Inr (), gh3)))))"

section \<open>pr-status-labeler.js\<close>

definition STATUS_LABEL_NAMES :: "string list" where
  "STATUS_LABEL_NAMES =
     [''status:draft'', ''status:ready-for-review'', ''status:approved'',
      ''status:mergeable'', ''status:merged'', ''status:abandoned'']"

definition desiredStatusLabel :: "bool \<Rightarrow> bool \<Rightarrow> bool \<Rightarrow> bool \<Rightarrow> string \<Rightarrow> string" where
  "desiredStatusLabel isMerged isAbandoned isDraft hasApproval qaStatus =
     (if isMerged then ''status:merged''
      else if isAbandoned then ''status:abandoned''
      else if isDraft then ''status:draft''
      else if hasApproval \<and> qaStatus = ''success'' then ''status:mergeable''
      else if hasApproval then ''status:approved''
      else ''status:ready-for-review'')"

definition updatePRStatusLabel ::
  "faults \<Rightarrow> bool \<Rightarrow> bool \<Rightarrow> string \<Rightarrow> bool \<Rightarrow> bool \<Rightarrow> github \<Rightarrow> (error + unit) \<times> github" where
  "updatePRStatusLabel faults isDraft hasApproval qaStatus isMerged isAbandoned gh =
     (let desiredLabel = desiredStatusLabel isMerged isAbandoned isDraft hasApproval qaStatus in
      case listLabelsOnIssue faults gh of
        (Inl e, gh1) \<Rightarrow> (Inl e, gh1)
      | (Inr currentLabels, gh1) \<Rightarrow>
          (let currentLabelNames = labelNames currentLabels;
               currentStatusLabels = filter (\<lambda>l. l \<in> set STATUS_LABEL_NAMES) currentLabelNames
           in if length currentStatusLabels = 1 \<and> currentStatusLabels ! 0 = desiredLabel
              then (Inr (), gh1)
              else
                (let labelsToRemove = filter (\<lambda>l. l \<noteq> desiredLabel) currentStatusLabels;
                     needsToAdd = (desiredLabel \<notin> set currentStatusLabels);
                     gh2 = removeEach faults labelsToRemove gh1;
                     gh3 = (if needsToAdd \<and> desiredLabel \<noteq> []
                            then snd (addLabels faults [desiredLabel] gh2)
                            else gh2)
                 in (Inr (), gh3))))"

text \<open>
  What one run without faults leaves on the pull request, written on the label list
  alone: the early return, else the removals followed by the conditional addition.
  It is used to state and prove the convergence of both reconcilers.
\<close>

definition reconciled :: "string list \<Rightarrow> string \<Rightarrow> label list \<Rightarrow> label list" where
  "reconciled grp d ls =
     (if length (filter (\<lambda>n. n \<in> set grp) (labelNames ls)) = 1
         \<and> filter (\<lambda>n. n \<in> set grp) (labelNames ls) ! 0 = d
      then ls
      else if d \<notin> set (filter (\<lambda>n. n \<in> set grp) (labelNames ls))
      then putLabel d (filter (\<lambda>l. name l \<notin> set (filter (\<lambda>n. n \<noteq> d)
                          (filter (\<lambda>n. n \<in> set grp) (labelNames ls)))) ls)
      else filter (\<lambda>l. name l \<notin> set (filter (\<lambda>n. n \<noteq> d)
                          (filter (\<lambda>n. n \<in> set grp) (labelNames ls)))) ls)"

section \<open>The conventional-commit labeler (PR Labeler Script)\<close>

text \<open>
  The three regular expressions of \<open>analyzePRAndApplyLabels\<close> are anchored at the start
  of the title and are built from literals, an alternation of literals, the optional
  group \<open>(\(.+\))?\<close> and nothing else. A matcher maps the input to the list of inputs
  that may remain after a match, in the order a backtracking engine tries them; the
  pattern matches when that list is not empty. \<open>.\<close> is any character but a line
  terminator, \<open>+\<close> and \<open>?\<close> are greedy.

  A string is the UTF-8 encoding of the JavaScript string. The line terminators are line
  feed, carriage return, U+2028 and U+2029; the last two are the byte sequences
  E2 80 A8 and E2 80 A9. \<open>dotRun\<close> is the length of the longest prefix without a line
  terminator, which is as far as \<open>.+\<close> can reach. Every literal of the patterns is
  ASCII, so a match can only go on at a character boundary.
\<close>

type_synonym matcher = "string \<Rightarrow> string list"

definition litM :: "string \<Rightarrow> matcher" where
  "litM s inp = (if take (length s) inp = s then [drop (length s) inp] else [])"

definition thenM :: "matcher \<Rightarrow> matcher \<Rightarrow> matcher" where
  "thenM m1 m2 inp = concat (map m2 (m1 inp))"

definition optM :: "matcher \<Rightarrow> matcher" where
  "optM m inp = m inp @ [inp]"

definition altM :: "string list \<Rightarrow> matcher" where
  "altM ss inp = concat (map (\<lambda>s. litM s inp) ss)"

definition lineTerminator :: "string \<Rightarrow> bool" where
  "lineTerminator inp =
     (take 1 inp = [CHR 0x0A] \<or> take 1 inp = [CHR 0x0D]
      \<or> take 3 inp = [CHR 0xE2, CHR 0x80, CHR 0xA8]
      \<or> take 3 inp = [CHR 0xE2, CHR 0x80, CHR 0xA9])"

fun dotRun :: "string \<Rightarrow> nat" where
  "dotRun [] = 0"
| "dotRun (c # cs) = (if lineTerminator (c # cs) then 0 else Suc (dotRun cs))"

definition dotPlusM :: matcher where
  "dotPlusM inp = map (\<lambda>k. drop k inp) (rev [1 ..< Suc (dotRun inp)])"

text \<open>The optional scope group \<open>(\(.+\))?\<close>.\<close>

definition scopeM :: matcher where
  "scopeM = optM (thenM (litM ''('') (thenM dotPlusM (litM '')'')))"

text \<open>\<open>/^(chore|fix|build)\(deps\):/\<close>\<close>

definition depsPattern :: matcher where
  "depsPattern = thenM (altM [''chore'', ''fix'', ''build'']) (litM ''(deps):'')"

definition COMMIT_TYPES :: "string list" where
  "COMMIT_TYPES = [''feat'', ''fix'', ''docs'', ''style'', ''refactor'', ''perf'', ''test'',
                   ''build'', ''ci'', ''revert'']"

text \<open>
  \<open>/^(feat|fix|docs|style|refactor|perf|test|build|ci|revert)(\(.+\))?:/\<close>. The engine
  tries the alternatives of group 1 in order, each with the rest of the pattern, so
  \<open>typeMatch[1]\<close> is the first alternative with which the whole pattern matches;
  \<open>typeMatch\<close> is \<open>None\<close> for JavaScript's \<open>null\<close>.
\<close>

definition typeMatch :: "string \<Rightarrow> string option" where
  "typeMatch prTitle =
     find (\<lambda>t. thenM (litM t) (thenM scopeM (litM '':'')) prTitle \<noteq> []) COMMIT_TYPES"

text \<open>\<open>/^(feat|fix|docs|style|refactor|perf|test|build|ci|revert)(\(.+\))?!:/\<close>\<close>

definition breakingMatch :: "string \<Rightarrow> string option" where
  "breakingMatch prTitle =
     find (\<lambda>t. thenM (litM t) (thenM scopeM (litM ''!:'')) prTitle \<noteq> []) COMMIT_TYPES"

text \<open>
  \<open>prBody\<close> is \<open>None\<close> when the argument is undefined, and then defaults to the empty
  string. Neither \<open>pulls.get\<close> nor \<open>addLabels\<close> is inside a \<open>try\<close>: an error of either
  rejects the function.
\<close>

definition analyzePRAndApplyLabels ::
  "faults \<Rightarrow> string \<Rightarrow> string option \<Rightarrow> github \<Rightarrow> (error + unit) \<times> github" where
  "analyzePRAndApplyLabels faults prTitle prBody gh =
     (let body = (case prBody of None \<Rightarrow> [] | Some b \<Rightarrow> b);
          typeLabels =
            (if depsPattern prTitle \<noteq> [] then [''dependencies'']
             else (case typeMatch prTitle of
                     Some t \<Rightarrow> [t]
                   | None \<Rightarrow> [''chore'']));
          breakingLabels =
            (if breakingMatch prTitle \<noteq> None \<or> str_includes body ''BREAKING CHANGE:''
             then [''breaking''] else [])
      in case pullsGet faults gh of
           (Inl e, gh1) \<Rightarrow> (Inl e, gh1)
         | (Inr pr, gh1) \<Rightarrow>
             (let labelsToAdd = typeLabels @ breakingLabels @
                    [if draft pr then ''status:draft'' else ''status:ready-for-review'']
              in if length labelsToAdd > 0 then addLabels faults labelsToAdd gh1
                 else (Inr (), gh1)))"

section \<open>The Slack notifier: desired reactions\<close>

text \<open>
  The two tables \<open>manageReactionsEfficiently\<close> passes to \<open>calculateDesiredReactions\<close>.
  An object literal is an association list, in the order of its keys; a lookup
  \<open>table[key]\<close> is \<open>map_of\<close>, and it is truthy when the key is there with a non-empty
  string. A label named like an inherited member puts a function into
  \<open>mappedReactions\<close>; that list is only searched for the selected reaction, a string,
  so such an entry never counts and is left out.
\<close>

definition statusReactions :: "(string \<times> string) list" where
  "statusReactions =
     [(''qa:pending'', ''hourglass_flowing_sand''),
      (''qa:running'', ''runner''),
      (''qa:success'', ''white_check_mark''),
      (''qa:failed'', ''x''),
      (''status:ready-for-review'', ''eyes''),
      (''status:approved'', ''thumbsup''),
      (''status:mergeable'', ''rocket'')]"

definition exclusiveGroups :: "(string \<times> string list) list" where
  "exclusiveGroups =
     [(''qa'', [''hourglass_flowing_sand'', ''runner'', ''white_check_mark'', ''x'']),
      (''status'', [''eyes'', ''thumbsup'', ''rocket''])]"

definition truthy :: "string option \<Rightarrow> bool" where
  "truthy v = (case v of None \<Rightarrow> False | Some s \<Rightarrow> s \<noteq> [])"

text \<open>
  \<open>groupPriority[groupName] || []\<close>. Under an inherited name the lookup finds a
  function, and the \<open>for ... of\<close> over it raises a TypeError.
\<close>

definition groupPriority :: "string \<Rightarrow> error + string list" where
  "groupPriority groupName =
     (if groupName = ''qa'' then Inr [''qa:failed'', ''qa:success'', ''qa:running'', ''qa:pending'']
      else if groupName = ''status''
      then Inr [''status:merged'', ''status:mergeable'', ''status:approved'',
                ''status:ready-for-review'']
      else if groupName \<in> set objectPrototypeKeys
      then Inl (Error ''TypeError: priorityOrder is not iterable'')
      else Inr [])"

text \<open>The inner loop over \<open>priorityOrder\<close>, left at the first hit by \<open>break\<close>.\<close>

fun selectReaction :: "label list \<Rightarrow> (string \<times> string) list \<Rightarrow> string list \<Rightarrow> string option" where
  "selectReaction lbls table [] = None"
| "selectReaction lbls table (priorityLabel # rest) =
     (if list_ex (\<lambda>l. name l = priorityLabel) lbls \<and> truthy (map_of table priorityLabel)
      then map_of table priorityLabel
      else selectReaction lbls table rest)"

text \<open>
  The loop over \<open>Object.entries(exclusiveGroups)\<close>, which appends to
  \<open>finalReactions\<close>; it ends by a throw when a group's priority order cannot be iterated.
\<close>

fun selectGroups ::
  "label list \<Rightarrow> (string \<times> string) list \<Rightarrow> string list \<Rightarrow> (string \<times> string list) list
     \<Rightarrow> string list \<Rightarrow> error + string list" where
  "selectGroups lbls table mappedReactions [] finalReactions = Inr finalReactions"
| "selectGroups lbls table mappedReactions ((groupName, groupReactions) # rest) finalReactions =
     (case groupPriority groupName of
        Inl e \<Rightarrow> Inl e
      | Inr priorityOrder \<Rightarrow>
          (case selectReaction lbls table priorityOrder of
             None \<Rightarrow> selectGroups lbls table mappedReactions rest finalReactions
           | Some r \<Rightarrow>
               if r \<noteq> [] \<and> r \<in> set mappedReactions
               then selectGroups lbls table mappedReactions rest (finalReactions @ [r])
               else selectGroups lbls table mappedReactions rest finalReactions))"

text \<open>
  The callback of the last \<open>filter\<close> reads \<open>exclusiveGroups.qa.includes\<close>: with no \<open>qa\<close>
  key it raises a TypeError at the first element, and is never called on an empty list.
\<close>

definition calculateDesiredReactions ::
  "label list \<Rightarrow> bool \<Rightarrow> (string \<times> string) list \<Rightarrow> (string \<times> string list) list
     \<Rightarrow> error + string list" where
  "calculateDesiredReactions lbls isPRMerged statusReactions' exclusiveGroups' =
     (let isMerged = (list_ex (\<lambda>l. name l = ''status:merged'') lbls \<or> isPRMerged) in
      if isMerged then Inr []
      else
        (let mappedReactions =
               concat (map (\<lambda>label.
                  (case map_of statusReactions' (name label) of
                     None \<Rightarrow> []
                   | Some r \<Rightarrow> if r \<noteq> [] then [r] else [])) lbls)
         in case selectGroups lbls statusReactions' mappedReactions exclusiveGroups' [] of
              Inl e \<Rightarrow> Inl e
            | Inr finalReactions \<Rightarrow>
                (let hasQaInProgress =
                       list_ex (\<lambda>l. name l = ''qa:running'' \<or> name l = ''qa:pending'') lbls
                 in if hasQaInProgress
                    then (if finalReactions = [] then Inr []
                          else (case map_of exclusiveGroups' ''qa'' of
                                  None \<Rightarrow> Inl (Error ''TypeError: Cannot read properties of undefined'')
                                | Some qa \<Rightarrow> Inr (filter (\<lambda>r. r \<in> set qa) finalReactions)))
                    else Inr finalReactions)))"

section \<open>auto-merge-manager.js\<close>

text \<open>
  The manager talks to GitHub twice, both times inside its \<open>try\<close>: \<open>pulls.get\<close> for the
  node id and the GraphQL mutation that enables auto-merge. Its console lines are kept
  as values, in order, since the error handler does nothing but choose one of them.
  \<open>prNumber\<close>, \<open>prAuthor\<close> and \<open>context\<close> only appear in the text of those lines.
\<close>

datatype log_entry =
    LogManaging
  | LogCurrentState
  | LogSkippingBot
  | LogMergeable bool
  | LogEnabling
  | LogEnabled
  | LogNotReady
  | LogReasons "string list"
  | LogAlreadyDisabled
  | LogAlreadyEnabled
  | LogNotAllowed
  | LogUpToDate
  | LogHasConflicts
  | LogErrorManaging string

text \<open>
  The value sent as \<open>mergeMethod\<close>: one of the three enum names, or what the lookup
  inherits from \<open>Object.prototype\<close> under the given name.
\<close>

datatype merge_value = MethodName string | Inherited string

datatype graphql_call = EnablePullRequestAutoMerge string merge_value

record automerge_api =
  getPull :: "error + pull"
  graphql :: "graphql_call \<Rightarrow> error + unit"

text \<open>\<open>mergeMethodMap[mergeMethod] || "SQUASH"\<close>\<close>

definition mergeMethodMap :: "string \<Rightarrow> merge_value" where
  "mergeMethodMap mergeMethod =
     (if mergeMethod = ''merge'' then MethodName ''MERGE''
      else if mergeMethod = ''squash'' then MethodName ''SQUASH''
      else if mergeMethod = ''rebase'' then MethodName ''REBASE''
      else if mergeMethod \<in> set objectPrototypeKeys then Inherited mergeMethod
      else MethodName ''SQUASH'')"

text \<open>The body of the \<open>try\<close>: the lines logged, and whether it ended by a throw.\<close>

definition tryBody ::
  "automerge_api \<Rightarrow> bool \<Rightarrow> string \<Rightarrow> bool \<Rightarrow> string \<Rightarrow> bool \<Rightarrow> (error + unit) \<times> log_entry list" where
  "tryBody api hasApproval qaStatus isDraft mergeMethod isMergeable =
     (if isMergeable then
        (case getPull api of
           Inl e \<Rightarrow> (Inl e, [LogEnabling])
         | Inr pr \<Rightarrow>
             (case graphql api (EnablePullRequestAutoMerge (node_id pr) (mergeMethodMap mergeMethod)) of
                Inl e \<Rightarrow> (Inl e, [LogEnabling])
              | Inr u \<Rightarrow> (Inr (), [LogEnabling, LogEnabled])))
      else
        (let reasons =
               (if \<not> hasApproval then [''no approval''] else [])
               @ (if qaStatus \<noteq> ''success'' then [''QA status is '' @ qaStatus] else [])
               @ (if isDraft then [''PR is a draft''] else [])
         in (Inr (), [LogNotReady, LogReasons reasons])))"

text \<open>The \<open>catch (error)\<close> block: one line, chosen by the first substring found.\<close>

definition catchHandler :: "error \<Rightarrow> (error + unit) \<times> log_entry list" where
  "catchHandler err =
     (if str_includes (message err) ''Auto-merge is not enabled'' then (Inr (), [LogAlreadyDisabled])
      else if str_includes (message err) ''already enabled'' then (Inr (), [LogAlreadyEnabled])
      else if str_includes (message err) ''Auto-merge is not allowed'' then (Inr (), [LogNotAllowed])
      else if str_includes (message err) ''Pull request is in clean status'' then (Inr (), [LogUpToDate])
      else if str_includes (message err) ''Pull request is in dirty status'' then (Inr (), [LogHasConflicts])
      else (Inr (), [LogErrorManaging (message err)]))"

text \<open>
  \<open>mergeMethod\<close> is \<open>None\<close> when the argument is undefined and then defaults to
  \<open>"squash"\<close>. The result is \<open>Inl\<close> when the function rejects.
\<close>

definition manageAutoMerge ::
  "automerge_api \<Rightarrow> string \<Rightarrow> bool \<Rightarrow> string \<Rightarrow> bool \<Rightarrow> string option
     \<Rightarrow> (error + unit) \<times> log_entry list" where
  "manageAutoMerge api prAuthorType hasApproval qaStatus isDraft mergeMethod' =
     (let mergeMethod = (case mergeMethod' of None \<Rightarrow> ''squash'' | Some m \<Rightarrow> m) in
      if prAuthorType = ''Bot'' then (Inr (), [LogManaging, LogCurrentState, LogSkippingBot])
      else
        (let isMergeable = (hasApproval \<and> qaStatus = ''success'' \<and> \<not> isDraft) in
         case tryBody api hasApproval qaStatus isDraft mergeMethod isMergeable of
           (Inr u, lines) \<Rightarrow> (Inr (), [LogManaging, LogCurrentState, LogMergeable isMergeable] @ lines)
         | (Inl err, lines) \<Rightarrow>
             (case catchHandler err of
                (r, handled) \<Rightarrow> (r, [LogManaging, LogCurrentState, LogMergeable isMergeable] @ lines @ handled))))"

section \<open>A pull request with more than one page of labels\<close>

text \<open>
  Thirty labels of no group. Their names sort before \<open>qa:\<close> and \<open>status:\<close>, so they fill
  the first page whether GitHub lists labels by name or in the order they were added.
\<close>

definition areaLabels :: "label list" where
  "areaLabels =
     map (\<lambda>n. \<lparr>name = n\<rparr>)
       [
        ''area-01'', ''area-02'', ''area-03'', ''area-04'', ''area-05'',
        ''area-06'', ''area-07'', ''area-08'', ''area-09'', ''area-10'',
        ''area-11'', ''area-12'', ''area-13'', ''area-14'', ''area-15'',
        ''area-16'', ''area-17'', ''area-18'', ''area-19'', ''area-20'',
        ''area-21'', ''area-22'', ''area-23'', ''area-24'', ''area-25'',
        ''area-26'', ''area-27'', ''area-28'', ''area-29'', ''area-30'']"

section \<open>Properties of the review checker\<close>

lemma approvals_nonempty_iff:
  "(length (approvals reviews prAuthor) > 0) =
     (\<exists>r \<in> set reviews. state r = ''APPROVED'' \<and> login (user r) \<noteq> prAuthor)"
  by (auto simp: approvals_def filter_empty_conv)

text \<open>
  C9. For every list of reviews returned by the API, \<open>checkApproval\<close> answers true
  exactly when some review has state APPROVED and an author login different from the PR
  author's; a list holding only an APPROVED review written by the PR author gives false.
\<close>

theorem C9_checkApproval_iff:
  "checkApproval (Inr reviews) prAuthor =
     Inr (\<exists>r \<in> set reviews. state r = ''APPROVED'' \<and> login (user r) \<noteq> prAuthor)
   \<and> checkApproval (Inr [\<lparr>state = ''APPROVED'', user = \<lparr>login = prAuthor\<rparr>\<rparr>]) prAuthor
       = Inr False"
proof -
  have "checkApproval (Inr reviews) prAuthor = Inr (length (approvals reviews prAuthor) > 0)"
    by (simp add: checkApproval_def)
  moreover have "checkApproval (Inr [\<lparr>state = ''APPROVED'', user = \<lparr>login = prAuthor\<rparr>\<rparr>]) prAuthor
       = Inr False"
    by (simp add: checkApproval_def approvals_def)
  ultimately show ?thesis
    by (simp only: approvals_nonempty_iff)
qed

theorem C9_checkApproval_witness:
  "checkApproval (Inr [\<lparr>state = ''COMMENTED'', user = \<lparr>login = ''bob''\<rparr>\<rparr>,
                       \<lparr>state = ''APPROVED'', user = \<lparr>login = ''alice''\<rparr>\<rparr>,
                       \<lparr>state = ''APPROVED'', user = \<lparr>login = ''bob''\<rparr>\<rparr>]) ''alice''
     = Inr True
   \<and> checkApproval (Inr [\<lparr>state = ''APPROVED'', user = \<lparr>login = ''alice''\<rparr>\<rparr>]) ''alice''
     = Inr False"
  using C9_checkApproval_iff [of "[\<lparr>state = ''COMMENTED'', user = \<lparr>login = ''bob''\<rparr>\<rparr>,
                       \<lparr>state = ''APPROVED'', user = \<lparr>login = ''alice''\<rparr>\<rparr>,
                       \<lparr>state = ''APPROVED'', user = \<lparr>login = ''bob''\<rparr>\<rparr>]" "''alice''"]
  by simp

text \<open>
  C7. On a \<open>pull_request_review\<close> event \<open>determineQAStatus\<close> reads the status back from
  the labels of the fetched pull request, with the precedence success, failed, running,
  pending, and answers "pending" when no QA label is there; the job results passed in
  play no part.
\<close>

theorem C7_review_event_status_from_labels:
  "(''qa:success'' \<in> set (labelNames (labels pr)) \<longrightarrow>
      determineQAStatus (Inr pr) ''pull_request_review'' qaResult secretScanningResult
        = Inr ''success'')
 \<and> (''qa:success'' \<notin> set (labelNames (labels pr)) \<and> ''qa:failed'' \<in> set (labelNames (labels pr)) \<longrightarrow>
      determineQAStatus (Inr pr) ''pull_request_review'' qaResult secretScanningResult
        = Inr ''failed'')
 \<and> (''qa:success'' \<notin> set (labelNames (labels pr)) \<and> ''qa:failed'' \<notin> set (labelNames (labels pr))
      \<and> ''qa:running'' \<in> set (labelNames (labels pr)) \<longrightarrow>
      determineQAStatus (Inr pr) ''pull_request_review'' qaResult secretScanningResult
        = Inr ''running'')
 \<and> (''qa:success'' \<notin> set (labelNames (labels pr)) \<and> ''qa:failed'' \<notin> set (labelNames (labels pr))
      \<and> ''qa:running'' \<notin> set (labelNames (labels pr)) \<longrightarrow>
      determineQAStatus (Inr pr) ''pull_request_review'' qaResult secretScanningResult
        = Inr ''pending'')"
  by (simp add: determineQAStatus_def qaStatusFromLabels_def)

theorem C7_review_event_status_witness:
  "determineQAStatus
     (Inr \<lparr>labels = [\<lparr>name = ''qa:pending''\<rparr>, \<lparr>name = ''qa:failed''\<rparr>, \<lparr>name = ''qa:success''\<rparr>],
           draft = False, node_id = ''PR_1''\<rparr>)
     ''pull_request_review'' (Some ''failure'') None = Inr ''success''
 \<and> determineQAStatus
     (Inr \<lparr>labels = [\<lparr>name = ''qa:running''\<rparr>, \<lparr>name = ''qa:failed''\<rparr>], draft = False, node_id = ''PR_1''\<rparr>)
     ''pull_request_review'' None None = Inr ''failed''
 \<and> determineQAStatus
     (Inr \<lparr>labels = [\<lparr>name = ''qa:pending''\<rparr>, \<lparr>name = ''qa:running''\<rparr>], draft = False, node_id = ''PR_1''\<rparr>)
     ''pull_request_review'' None None = Inr ''running''
 \<and> determineQAStatus
     (Inr \<lparr>labels = [\<lparr>name = ''feat''\<rparr>], draft = False, node_id = ''PR_1''\<rparr>)
     ''pull_request_review'' (Some ''success'') None = Inr ''pending''"
  using C7_review_event_status_from_labels
          [of "\<lparr>labels = [\<lparr>name = ''qa:pending''\<rparr>, \<lparr>name = ''qa:failed''\<rparr>, \<lparr>name = ''qa:success''\<rparr>],
                 draft = False, node_id = ''PR_1''\<rparr>" "Some ''failure''" None]
        C7_review_event_status_from_labels
          [of "\<lparr>labels = [\<lparr>name = ''qa:running''\<rparr>, \<lparr>name = ''qa:failed''\<rparr>], draft = False, node_id = ''PR_1''\<rparr>"
              None None]
        C7_review_event_status_from_labels
          [of "\<lparr>labels = [\<lparr>name = ''qa:pending''\<rparr>, \<lparr>name = ''qa:running''\<rparr>], draft = False, node_id = ''PR_1''\<rparr>"
              None None]
        C7_review_event_status_from_labels
          [of "\<lparr>labels = [\<lparr>name = ''feat''\<rparr>], draft = False, node_id = ''PR_1''\<rparr>" "Some ''success''" None]
  by (simp add: labelNames_def)

section \<open>Properties of the label reconcilers\<close>


lemma removeLabel_requests:
  "requests (snd (removeLabel faults nm gh)) = requests gh @ [RemoveLabel nm]"
  by (simp add: removeLabel_def request_def split: option.splits)

lemma removeEach_requests:
  "requests (removeEach faults ls gh) = requests gh @ map RemoveLabel ls"
  by (induction ls arbitrary: gh) (simp_all add: removeLabel_requests)

lemma removeLabel_noFaults_labels:
  "issueLabels (snd (removeLabel noFaults nm gh)) = filter (\<lambda>l. name l \<noteq> nm) (issueLabels gh)"
  by (simp add: removeLabel_def request_def noFaults_def)

lemma removeEach_noFaults_labels:
  "issueLabels (removeEach noFaults ls gh) = filter (\<lambda>l. name l \<notin> set ls) (issueLabels gh)"
  by (induction ls arbitrary: gh) (simp_all add: removeLabel_noFaults_labels conj_commute)

lemma addLabels_noFaults_labels:
  "issueLabels (snd (addLabels noFaults [nm] gh)) = putLabel nm (issueLabels gh)"
  by (simp add: addLabels_def request_def noFaults_def)

lemma listLabels_noFaults:
  "listLabelsOnIssue noFaults gh =
     (Inr (take DEFAULT_PER_PAGE (issueLabels gh)), request ListLabelsOnIssue gh)"
  by (simp add: listLabelsOnIssue_def noFaults_def)

text \<open>A pull request with at most one page of labels is read in full.\<close>

lemma listLabels_one_page:
  "length (issueLabels gh) \<le> DEFAULT_PER_PAGE \<Longrightarrow>
     listLabelsOnIssue noFaults gh = (Inr (issueLabels gh), request ListLabelsOnIssue gh)"
  by (simp add: listLabels_noFaults)

lemma listLabels_one_page_faults:
  "length (issueLabels gh) \<le> DEFAULT_PER_PAGE \<Longrightarrow>
     listLabelsOnIssue faults gh =
       (case faults ListLabelsOnIssue of
          Some e \<Rightarrow> (Inl e, request ListLabelsOnIssue gh)
        | None \<Rightarrow> (Inr (issueLabels gh), request ListLabelsOnIssue gh))"
  by (simp add: listLabelsOnIssue_def split: option.splits)

lemma issueLabels_request: "issueLabels (request c gh) = issueLabels gh"
  by (simp add: request_def)

lemma filter_single:
  "length xs = 1 \<Longrightarrow> xs ! 0 = d \<Longrightarrow> xs = [d]"
  by (cases xs) auto

lemma labelNames_filter:
  "labelNames (filter (\<lambda>l. P (name l)) ls) = filter P (labelNames ls)"
  by (induction ls) (simp_all add: labelNames_def)

lemma labelNames_putLabel:
  "labelNames (putLabel d ls) = (if d \<in> set (labelNames ls) then labelNames ls else labelNames ls @ [d])"
  by (simp add: putLabel_def labelNames_def)

lemma filter_eq_distinct:
  "distinct ns \<Longrightarrow> filter (\<lambda>n. n = d) ns = (if d \<in> set ns then [d] else [])"
  by (induction ns) auto

lemma reconcile_names:
  assumes d: "d \<in> set grp" and dist: "distinct (labelNames ls)"
  defines "cur \<equiv> filter (\<lambda>n. n \<in> set grp) (labelNames ls)"
  defines "ls1 \<equiv> filter (\<lambda>l. name l \<notin> set (filter (\<lambda>n. n \<noteq> d) cur)) ls"
  defines "ls2 \<equiv> (if d \<notin> set cur then putLabel d ls1 else ls1)"
  shows "filter (\<lambda>n. n \<in> set grp) (labelNames ls2) = [d]"
    and "filter (\<lambda>n. n \<notin> set grp) (labelNames ls2) = filter (\<lambda>n. n \<notin> set grp) (labelNames ls)"
    and "distinct (labelNames ls2)"
proof -
  let ?ns = "labelNames ls"
  have n1: "labelNames ls1 = filter (\<lambda>n. \<not> (n \<in> set grp \<and> n \<noteq> d)) ?ns"
  proof -
    have "labelNames ls1 = filter (\<lambda>n. n \<notin> set (filter (\<lambda>n. n \<noteq> d) cur)) ?ns"
      unfolding ls1_def by (rule labelNames_filter)
    also have "\<dots> = filter (\<lambda>n. \<not> (n \<in> set grp \<and> n \<noteq> d)) ?ns"
      by (rule filter_cong) (auto simp: cur_def)
    finally show ?thesis .
  qed
  have g1: "filter (\<lambda>n. n \<in> set grp) (labelNames ls1) = filter (\<lambda>n. n = d) ?ns"
    unfolding n1 filter_filter using d by (intro filter_cong) auto
  have o1: "filter (\<lambda>n. n \<notin> set grp) (labelNames ls1) = filter (\<lambda>n. n \<notin> set grp) ?ns"
    unfolding n1 filter_filter by (intro filter_cong) auto
  have d1: "distinct (labelNames ls1)"
    unfolding n1 using dist by simp
  have cur_d: "d \<in> set cur \<longleftrightarrow> d \<in> set ?ns"
    using d by (auto simp: cur_def)
  have in1: "d \<in> set (labelNames ls1) \<longleftrightarrow> d \<in> set ?ns"
    unfolding n1 by auto
  show "filter (\<lambda>n. n \<in> set grp) (labelNames ls2) = [d]"
    using d dist by (simp add: ls2_def cur_d labelNames_putLabel in1 g1 filter_eq_distinct)
  show "filter (\<lambda>n. n \<notin> set grp) (labelNames ls2) = filter (\<lambda>n. n \<notin> set grp) ?ns"
    using d by (simp add: ls2_def cur_d labelNames_putLabel in1 o1)
  show "distinct (labelNames ls2)"
    using d1 by (simp add: ls2_def cur_d labelNames_putLabel in1)
qed


lemma desiredQaLabel_in_group:
  "desiredQaLabel ws \<noteq> [] \<Longrightarrow> desiredQaLabel ws \<in> set QA_LABEL_NAMES"
  by (simp add: desiredQaLabel_def QA_LABEL_NAMES_def split: if_splits)

lemma desiredQaLabel_recognized:
  "(desiredQaLabel ws \<noteq> []) =
     (ws \<in> {''pending'', ''running'', ''success'', ''failure'', ''cancelled''})"
  by (simp add: desiredQaLabel_def)

lemma desiredStatusLabel_in_group:
  "desiredStatusLabel m a d h q \<in> set STATUS_LABEL_NAMES"
  by (simp add: desiredStatusLabel_def STATUS_LABEL_NAMES_def)

lemma desiredStatusLabel_nonempty: "desiredStatusLabel m a d h q \<noteq> []"
  by (simp add: desiredStatusLabel_def)

lemma build_run_noFaults:
  assumes "desiredQaLabel ws \<noteq> []" and pg: "length (issueLabels gh) \<le> DEFAULT_PER_PAGE"
  shows "fst (updateBuildStatusLabel noFaults ws gh) = Inr ()"
    and "issueLabels (snd (updateBuildStatusLabel noFaults ws gh)) =
           reconciled QA_LABEL_NAMES (desiredQaLabel ws) (issueLabels gh)"
  using assms(1)
  unfolding updateBuildStatusLabel_def Let_def listLabels_one_page [OF pg] reconciled_def
  by (simp_all only: prod.case sum.case fst_conv snd_conv if_False issueLabels_request
        removeEach_noFaults_labels addLabels_noFaults_labels if_distrib [of fst] if_distrib [of snd]
        if_distrib [of issueLabels] if_cancel)

lemma status_run_noFaults:
  assumes pg: "length (issueLabels gh) \<le> DEFAULT_PER_PAGE"
  shows "fst (updatePRStatusLabel noFaults dr h q m a gh) = Inr ()"
    and "issueLabels (snd (updatePRStatusLabel noFaults dr h q m a gh)) =
           reconciled STATUS_LABEL_NAMES (desiredStatusLabel m a dr h q) (issueLabels gh)"
  unfolding updatePRStatusLabel_def Let_def listLabels_one_page [OF pg] reconciled_def
  by (simp_all only: prod.case sum.case fst_conv snd_conv if_False issueLabels_request
        removeEach_noFaults_labels addLabels_noFaults_labels if_distrib [of fst] if_distrib [of snd]
        if_distrib [of issueLabels] if_cancel desiredStatusLabel_nonempty simp_thms)

lemma reconciled_group:
  assumes d: "d \<in> set grp" and dist: "distinct (labelNames ls)"
  shows "filter (\<lambda>n. n \<in> set grp) (labelNames (reconciled grp d ls)) = [d]"
    and "filter (\<lambda>n. n \<notin> set grp) (labelNames (reconciled grp d ls))
           = filter (\<lambda>n. n \<notin> set grp) (labelNames ls)"
    and "distinct (labelNames (reconciled grp d ls))"
proof -
  let ?cur = "filter (\<lambda>n. n \<in> set grp) (labelNames ls)"
  note r = reconcile_names [OF d dist]
  show "filter (\<lambda>n. n \<in> set grp) (labelNames (reconciled grp d ls)) = [d]"
  proof (cases "length ?cur = 1 \<and> ?cur ! 0 = d")
    case True
    then have c: "?cur = [d]" by (simp add: filter_single)
    have "reconciled grp d ls = ls" unfolding reconciled_def using True by (simp only: if_True simp_thms)
    then show ?thesis using c by simp
  next
    case False
    have "reconciled grp d ls = (if d \<notin> set ?cur
            then putLabel d (filter (\<lambda>l. name l \<notin> set (filter (\<lambda>n. n \<noteq> d) ?cur)) ls)
            else filter (\<lambda>l. name l \<notin> set (filter (\<lambda>n. n \<noteq> d) ?cur)) ls)"
      unfolding reconciled_def using False by (simp only: if_False simp_thms)
    then show ?thesis using r(1) by (simp only:)
  qed
  show "filter (\<lambda>n. n \<notin> set grp) (labelNames (reconciled grp d ls))
           = filter (\<lambda>n. n \<notin> set grp) (labelNames ls)"
  proof (cases "length ?cur = 1 \<and> ?cur ! 0 = d")
    case True
    have "reconciled grp d ls = ls" unfolding reconciled_def using True by (simp only: if_True simp_thms)
    then show ?thesis by simp
  next
    case False
    have "reconciled grp d ls = (if d \<notin> set ?cur
            then putLabel d (filter (\<lambda>l. name l \<notin> set (filter (\<lambda>n. n \<noteq> d) ?cur)) ls)
            else filter (\<lambda>l. name l \<notin> set (filter (\<lambda>n. n \<noteq> d) ?cur)) ls)"
      unfolding reconciled_def using False by (simp only: if_False simp_thms)
    then show ?thesis using r(2) by (simp only:)
  qed
  show "distinct (labelNames (reconciled grp d ls))"
  proof (cases "length ?cur = 1 \<and> ?cur ! 0 = d")
    case True
    have "reconciled grp d ls = ls" unfolding reconciled_def using True by (simp only: if_True simp_thms)
    then show ?thesis using dist by simp
  next
    case False
    have "reconciled grp d ls = (if d \<notin> set ?cur
            then putLabel d (filter (\<lambda>l. name l \<notin> set (filter (\<lambda>n. n \<noteq> d) ?cur)) ls)
            else filter (\<lambda>l. name l \<notin> set (filter (\<lambda>n. n \<noteq> d) ?cur)) ls)"
      unfolding reconciled_def using False by (simp only: if_False simp_thms)
    then show ?thesis using r(3) by (simp only:)
  qed
qed


lemma build_second_run:
  assumes "filter (\<lambda>n. n \<in> set QA_LABEL_NAMES) (labelNames (issueLabels gh)) = [desiredQaLabel ws]"
    and pg: "length (issueLabels gh) \<le> DEFAULT_PER_PAGE"
  shows "requests (snd (updateBuildStatusLabel faults ws gh)) = requests gh @ [ListLabelsOnIssue]
       \<and> issueLabels (snd (updateBuildStatusLabel faults ws gh)) = issueLabels gh"
proof -
  have ne: "desiredQaLabel ws \<noteq> []"
  proof
    assume e: "desiredQaLabel ws = []"
    have "[] \<in> set (filter (\<lambda>n. n \<in> set QA_LABEL_NAMES) (labelNames (issueLabels gh)))"
      unfolding assms(1) e by simp
    then show False by (simp add: QA_LABEL_NAMES_def)
  qed
  show ?thesis
    using ne assms(1)
    by (simp add: updateBuildStatusLabel_def listLabels_one_page_faults [OF pg] request_def
          split: option.splits)
qed

lemma status_second_run:
  assumes "filter (\<lambda>n. n \<in> set STATUS_LABEL_NAMES) (labelNames (issueLabels gh))
             = [desiredStatusLabel m a dr h q]"
    and pg: "length (issueLabels gh) \<le> DEFAULT_PER_PAGE"
  shows "requests (snd (updatePRStatusLabel faults dr h q m a gh)) = requests gh @ [ListLabelsOnIssue]
       \<and> issueLabels (snd (updatePRStatusLabel faults dr h q m a gh)) = issueLabels gh"
  using assms(1)
  by (simp add: updatePRStatusLabel_def listLabels_one_page_faults [OF pg] request_def
        split: option.splits)

lemma addLabels_requests:
  "requests (snd (addLabels faults nms gh)) = requests gh @ [AddLabels nms]"
  by (simp add: addLabels_def request_def split: option.splits)

lemma build_requests_noFaults:
  assumes "desiredQaLabel ws \<noteq> []" and pg: "length (issueLabels gh) \<le> DEFAULT_PER_PAGE"
  shows "requests (snd (updateBuildStatusLabel noFaults ws gh)) =
           requests gh @ [ListLabelsOnIssue]
           @ map RemoveLabel (filter (\<lambda>n. n \<noteq> desiredQaLabel ws)
                (filter (\<lambda>n. n \<in> set QA_LABEL_NAMES) (labelNames (issueLabels gh))))
           @ (if desiredQaLabel ws \<in> set (labelNames (issueLabels gh)) then []
              else [AddLabels [desiredQaLabel ws]])"
proof -
  let ?d = "desiredQaLabel ws"
  let ?cur = "filter (\<lambda>n. n \<in> set QA_LABEL_NAMES) (labelNames (issueLabels gh))"
  have din: "?d \<in> set QA_LABEL_NAMES" using assms(1) by (rule desiredQaLabel_in_group)
  have mem: "(?d \<in> set ?cur) = (?d \<in> set (labelNames (issueLabels gh)))"
    using din by simp
  show ?thesis
  proof (cases "length ?cur = 1 \<and> ?cur ! 0 = ?d")
    case True
    then have c: "?cur = [?d]" by (simp add: filter_single)
    then have "?d \<in> set ?cur" by simp
    then have "?d \<in> set (labelNames (issueLabels gh))" by (simp only: mem)
    then show ?thesis
      using assms(1) True c
      by (simp add: updateBuildStatusLabel_def Let_def listLabels_one_page [OF pg] request_def)
  next
    case False
    then show ?thesis
      using assms(1) din
      by (auto simp: updateBuildStatusLabel_def Let_def listLabels_one_page [OF pg]
            removeEach_requests addLabels_requests request_def)
  qed
qed

lemma status_requests_noFaults:
  assumes pg: "length (issueLabels gh) \<le> DEFAULT_PER_PAGE"
  shows "requests (snd (updatePRStatusLabel noFaults dr h q m a gh)) =
           requests gh @ [ListLabelsOnIssue]
           @ map RemoveLabel (filter (\<lambda>n. n \<noteq> desiredStatusLabel m a dr h q)
                (filter (\<lambda>n. n \<in> set STATUS_LABEL_NAMES) (labelNames (issueLabels gh))))
           @ (if desiredStatusLabel m a dr h q \<in> set (labelNames (issueLabels gh)) then []
              else [AddLabels [desiredStatusLabel m a dr h q]])"
proof -
  let ?d = "desiredStatusLabel m a dr h q"
  let ?cur = "filter (\<lambda>n. n \<in> set STATUS_LABEL_NAMES) (labelNames (issueLabels gh))"
  have din: "?d \<in> set STATUS_LABEL_NAMES" by (rule desiredStatusLabel_in_group)
  have ne: "?d \<noteq> []" by (rule desiredStatusLabel_nonempty)
  have mem: "(?d \<in> set ?cur) = (?d \<in> set (labelNames (issueLabels gh)))"
    using din by simp
  show ?thesis
  proof (cases "length ?cur = 1 \<and> ?cur ! 0 = ?d")
    case True
    then have c: "?cur = [?d]" by (simp add: filter_single)
    then have "?d \<in> set ?cur" by simp
    then have "?d \<in> set (labelNames (issueLabels gh))" by (simp only: mem)
    then show ?thesis
      using True c
      by (simp add: updatePRStatusLabel_def Let_def listLabels_one_page [OF pg] request_def)
  next
    case False
    then show ?thesis
      using din ne
      by (auto simp: updatePRStatusLabel_def Let_def listLabels_one_page [OF pg]
            removeEach_requests addLabels_requests request_def)
  qed
qed

lemma desiredQaLabel_literal:
  "ws \<in> {''pending'', ''running'', ''success'', ''failure'', ''cancelled''} \<Longrightarrow>
     desiredQaLabel ws =
       (if ws = ''pending'' then ''qa:pending''
        else if ws = ''running'' then ''qa:running''
        else if ws = ''success'' then ''qa:success''
        else ''qa:failed'')"
  by (auto simp: desiredQaLabel_def)

lemma desiredStatusLabel_literal:
  "desiredStatusLabel m a dr h q =
     (if m then ''status:merged''
      else if a then ''status:abandoned''
      else if dr then ''status:draft''
      else if h \<and> q = ''success'' then ''status:mergeable''
      else if h then ''status:approved''
      else ''status:ready-for-review'')"
  by (simp add: desiredStatusLabel_def)

lemma reconciled_length: "length (reconciled grp d ls) \<le> Suc (length ls)"
proof -
  have "length (filter P ls) \<le> Suc (length ls)" for P :: "label \<Rightarrow> bool"
    by (rule le_SucI) (rule length_filter_le)
  then show ?thesis
    by (simp add: reconciled_def putLabel_def)
qed

text \<open>
  What holds when the pull request has at most one page of labels. One run without
  faults and with a recognized status leaves exactly one QA label, the one the status
  maps to (written out here, not taken from \<open>desiredQaLabel\<close>), leaves the other labels
  alone and issues the read, one removal per competing label and the addition only when
  needed. The same for the status group.
\<close>

lemma one_page_converges_build:
  assumes dist: "distinct (labelNames (issueLabels gh))"
    and pg: "length (issueLabels gh) \<le> DEFAULT_PER_PAGE"
    and ws: "ws \<in> {''pending'', ''running'', ''success'', ''failure'', ''cancelled''}"
  defines "d \<equiv> (if ws = ''pending'' then ''qa:pending''
                   else if ws = ''running'' then ''qa:running''
                   else if ws = ''success'' then ''qa:success''
                   else ''qa:failed'')"
  shows "fst (updateBuildStatusLabel noFaults ws gh) = Inr ()"
    and "filter (\<lambda>n. n \<in> set QA_LABEL_NAMES)
           (labelNames (issueLabels (snd (updateBuildStatusLabel noFaults ws gh)))) = [d]"
    and "filter (\<lambda>n. n \<notin> set QA_LABEL_NAMES)
           (labelNames (issueLabels (snd (updateBuildStatusLabel noFaults ws gh))))
         = filter (\<lambda>n. n \<notin> set QA_LABEL_NAMES) (labelNames (issueLabels gh))"
    and "requests (snd (updateBuildStatusLabel noFaults ws gh))
         = requests gh @ [ListLabelsOnIssue]
           @ map RemoveLabel (filter (\<lambda>n. n \<noteq> d)
               (filter (\<lambda>n. n \<in> set QA_LABEL_NAMES) (labelNames (issueLabels gh))))
           @ (if d \<in> set (labelNames (issueLabels gh)) then [] else [AddLabels [d]])"
proof -
  have dd: "d = desiredQaLabel ws"
    unfolding d_def by (rule desiredQaLabel_literal [OF ws, symmetric])
  from ws have ne: "desiredQaLabel ws \<noteq> []"
    by (simp only: desiredQaLabel_recognized)
  note g = reconciled_group [OF desiredQaLabel_in_group [OF ne] dist]
  show "fst (updateBuildStatusLabel noFaults ws gh) = Inr ()"
    by (rule build_run_noFaults(1) [OF ne pg])
  show "filter (\<lambda>n. n \<in> set QA_LABEL_NAMES)
           (labelNames (issueLabels (snd (updateBuildStatusLabel noFaults ws gh)))) = [d]"
    by (simp only: dd build_run_noFaults(2) [OF ne pg] g)
  show "filter (\<lambda>n. n \<notin> set QA_LABEL_NAMES)
           (labelNames (issueLabels (snd (updateBuildStatusLabel noFaults ws gh))))
         = filter (\<lambda>n. n \<notin> set QA_LABEL_NAMES) (labelNames (issueLabels gh))"
    by (simp only: build_run_noFaults(2) [OF ne pg] g)
  show "requests (snd (updateBuildStatusLabel noFaults ws gh))
         = requests gh @ [ListLabelsOnIssue]
           @ map RemoveLabel (filter (\<lambda>n. n \<noteq> d)
               (filter (\<lambda>n. n \<in> set QA_LABEL_NAMES) (labelNames (issueLabels gh))))
           @ (if d \<in> set (labelNames (issueLabels gh)) then [] else [AddLabels [d]])"
    by (simp only: dd build_requests_noFaults [OF ne pg])
qed

lemma one_page_converges_status:
  fixes m a dr h :: bool and q :: string
  assumes dist: "distinct (labelNames (issueLabels gh))"
    and pg: "length (issueLabels gh) \<le> DEFAULT_PER_PAGE"
  defines "d \<equiv> (if m then ''status:merged''
                   else if a then ''status:abandoned''
                   else if dr then ''status:draft''
                   else if h \<and> q = ''success'' then ''status:mergeable''
                   else if h then ''status:approved''
                   else ''status:ready-for-review'')"
  shows "fst (updatePRStatusLabel noFaults dr h q m a gh) = Inr ()"
    and "filter (\<lambda>n. n \<in> set STATUS_LABEL_NAMES)
           (labelNames (issueLabels (snd (updatePRStatusLabel noFaults dr h q m a gh)))) = [d]"
    and "filter (\<lambda>n. n \<notin> set STATUS_LABEL_NAMES)
           (labelNames (issueLabels (snd (updatePRStatusLabel noFaults dr h q m a gh))))
         = filter (\<lambda>n. n \<notin> set STATUS_LABEL_NAMES) (labelNames (issueLabels gh))"
    and "requests (snd (updatePRStatusLabel noFaults dr h q m a gh))
         = requests gh @ [ListLabelsOnIssue]
           @ map RemoveLabel (filter (\<lambda>n. n \<noteq> d)
               (filter (\<lambda>n. n \<in> set STATUS_LABEL_NAMES) (labelNames (issueLabels gh))))
           @ (if d \<in> set (labelNames (issueLabels gh)) then [] else [AddLabels [d]])"
proof -
  have dd: "d = desiredStatusLabel m a dr h q"
    unfolding d_def by (rule desiredStatusLabel_literal [symmetric])
  note g = reconciled_group [OF desiredStatusLabel_in_group dist]
  show "fst (updatePRStatusLabel noFaults dr h q m a gh) = Inr ()"
    by (rule status_run_noFaults(1) [OF pg])
  show "filter (\<lambda>n. n \<in> set STATUS_LABEL_NAMES)
           (labelNames (issueLabels (snd (updatePRStatusLabel noFaults dr h q m a gh)))) = [d]"
    by (simp only: dd status_run_noFaults(2) [OF pg] g)
  show "filter (\<lambda>n. n \<notin> set STATUS_LABEL_NAMES)
           (labelNames (issueLabels (snd (updatePRStatusLabel noFaults dr h q m a gh))))
         = filter (\<lambda>n. n \<notin> set STATUS_LABEL_NAMES) (labelNames (issueLabels gh))"
    by (simp only: status_run_noFaults(2) [OF pg] g)
  show "requests (snd (updatePRStatusLabel noFaults dr h q m a gh))
         = requests gh @ [ListLabelsOnIssue]
           @ map RemoveLabel (filter (\<lambda>n. n \<noteq> d)
               (filter (\<lambda>n. n \<in> set STATUS_LABEL_NAMES) (labelNames (issueLabels gh))))
           @ (if d \<in> set (labelNames (issueLabels gh)) then [] else [AddLabels [d]])"
    by (simp only: dd status_requests_noFaults [OF pg])
qed

text \<open>
  When even the labels after the first run fit on one page, a second run with the same
  desired status issues the read and nothing else, whatever requests would fail in it.
\<close>

lemma one_page_idempotent_build:
  assumes dist: "distinct (labelNames (issueLabels gh))"
    and pg: "length (issueLabels gh) < DEFAULT_PER_PAGE"
    and ws: "ws \<in> {''pending'', ''running'', ''success'', ''failure'', ''cancelled''}"
  shows "requests (snd (updateBuildStatusLabel faults ws (snd (updateBuildStatusLabel noFaults ws gh))))
           = requests (snd (updateBuildStatusLabel noFaults ws gh)) @ [ListLabelsOnIssue]"
    and "issueLabels (snd (updateBuildStatusLabel faults ws (snd (updateBuildStatusLabel noFaults ws gh))))
           = issueLabels (snd (updateBuildStatusLabel noFaults ws gh))"
proof -
  from pg have pg': "length (issueLabels gh) \<le> DEFAULT_PER_PAGE" by simp
  from ws have ne: "desiredQaLabel ws \<noteq> []"
    by (simp only: desiredQaLabel_recognized)
  have one: "filter (\<lambda>n. n \<in> set QA_LABEL_NAMES)
               (labelNames (issueLabels (snd (updateBuildStatusLabel noFaults ws gh))))
             = [desiredQaLabel ws]"
    by (simp only: build_run_noFaults(2) [OF ne pg']
          reconciled_group [OF desiredQaLabel_in_group [OF ne] dist])
  have len: "length (issueLabels (snd (updateBuildStatusLabel noFaults ws gh))) \<le> DEFAULT_PER_PAGE"
    unfolding build_run_noFaults(2) [OF ne pg']
    using reconciled_length [of QA_LABEL_NAMES "desiredQaLabel ws" "issueLabels gh"] pg by simp
  from build_second_run [OF one len]
  show "requests (snd (updateBuildStatusLabel faults ws (snd (updateBuildStatusLabel noFaults ws gh))))
           = requests (snd (updateBuildStatusLabel noFaults ws gh)) @ [ListLabelsOnIssue]"
    and "issueLabels (snd (updateBuildStatusLabel faults ws (snd (updateBuildStatusLabel noFaults ws gh))))
           = issueLabels (snd (updateBuildStatusLabel noFaults ws gh))"
    by blast+
qed

lemma one_page_idempotent_status:
  assumes dist: "distinct (labelNames (issueLabels gh))"
    and pg: "length (issueLabels gh) < DEFAULT_PER_PAGE"
  shows "requests (snd (updatePRStatusLabel faults dr h q m a
                          (snd (updatePRStatusLabel noFaults dr h q m a gh))))
           = requests (snd (updatePRStatusLabel noFaults dr h q m a gh)) @ [ListLabelsOnIssue]"
    and "issueLabels (snd (updatePRStatusLabel faults dr h q m a
                          (snd (updatePRStatusLabel noFaults dr h q m a gh))))
           = issueLabels (snd (updatePRStatusLabel noFaults dr h q m a gh))"
proof -
  from pg have pg': "length (issueLabels gh) \<le> DEFAULT_PER_PAGE" by simp
  have one: "filter (\<lambda>n. n \<in> set STATUS_LABEL_NAMES)
               (labelNames (issueLabels (snd (updatePRStatusLabel noFaults dr h q m a gh))))
             = [desiredStatusLabel m a dr h q]"
    by (simp only: status_run_noFaults(2) [OF pg']
          reconciled_group [OF desiredStatusLabel_in_group dist])
  have len: "length (issueLabels (snd (updatePRStatusLabel noFaults dr h q m a gh))) \<le> DEFAULT_PER_PAGE"
    unfolding status_run_noFaults(2) [OF pg']
    using reconciled_length [of STATUS_LABEL_NAMES "desiredStatusLabel m a dr h q" "issueLabels gh"] pg
    by simp
  from status_second_run [OF one len]
  show "requests (snd (updatePRStatusLabel faults dr h q m a
                          (snd (updatePRStatusLabel noFaults dr h q m a gh))))
           = requests (snd (updatePRStatusLabel noFaults dr h q m a gh)) @ [ListLabelsOnIssue]"
    and "issueLabels (snd (updatePRStatusLabel faults dr h q m a
                          (snd (updatePRStatusLabel noFaults dr h q m a gh))))
           = issueLabels (snd (updatePRStatusLabel noFaults dr h q m a gh))"
    by blast+
qed

text \<open>The example of the specification: two competing QA labels, desired \<open>success\<close>.\<close>

lemma build_example:
  "updateBuildStatusLabel noFaults ''success''
     \<lparr>issueLabels = [\<lparr>name = ''bug''\<rparr>, \<lparr>name = ''qa:running''\<rparr>, \<lparr>name = ''qa:failed''\<rparr>,
                     \<lparr>name = ''status:draft''\<rparr>],
      prDraft = False, prNodeId = ''PR_1'', requests = []\<rparr>
   = (Inr (),
      \<lparr>issueLabels = [\<lparr>name = ''bug''\<rparr>, \<lparr>name = ''status:draft''\<rparr>, \<lparr>name = ''qa:success''\<rparr>],
       prDraft = False, prNodeId = ''PR_1'',
       requests = [ListLabelsOnIssue, RemoveLabel ''qa:running'', RemoveLabel ''qa:failed'',
                   AddLabels [''qa:success'']]\<rparr>)"
  by code_simp

lemma build_example_failure:
  "updateBuildStatusLabel noFaults ''failure''
     \<lparr>issueLabels = [\<lparr>name = ''bug''\<rparr>, \<lparr>name = ''qa:running''\<rparr>],
      prDraft = False, prNodeId = ''PR_1'', requests = []\<rparr>
   = (Inr (),
      \<lparr>issueLabels = [\<lparr>name = ''bug''\<rparr>, \<lparr>name = ''qa:failed''\<rparr>],
       prDraft = False, prNodeId = ''PR_1'',
       requests = [ListLabelsOnIssue, RemoveLabel ''qa:running'', AddLabels [''qa:failed'']]\<rparr>)"
  by code_simp

lemma status_example:
  "updatePRStatusLabel noFaults False True ''success'' False False
     \<lparr>issueLabels = [\<lparr>name = ''bug''\<rparr>, \<lparr>name = ''qa:running''\<rparr>, \<lparr>name = ''qa:failed''\<rparr>,
                     \<lparr>name = ''status:draft''\<rparr>],
      prDraft = False, prNodeId = ''PR_1'', requests = []\<rparr>
   = (Inr (),
      \<lparr>issueLabels = [\<lparr>name = ''bug''\<rparr>, \<lparr>name = ''qa:running''\<rparr>, \<lparr>name = ''qa:failed''\<rparr>,
                      \<lparr>name = ''status:mergeable''\<rparr>],
       prDraft = False, prNodeId = ''PR_1'',
       requests = [ListLabelsOnIssue, RemoveLabel ''status:draft'', AddLabels [''status:mergeable'']]\<rparr>)"
  by code_simp

text \<open>
  C2. The claim fails on a pull request with more than one page of labels. Here the
  pull request carries the thirty labels of \<open>areaLabels\<close> and then \<open>qa:running\<close> and
  \<open>status:draft\<close>. The single read returns the first thirty, none of a group, so a run
  of \<open>updateBuildStatusLabel\<close> for \<open>success\<close> in which no request fails removes nothing and
  adds \<open>qa:success\<close>: the pull request ends with two QA labels. In the same way
  \<open>updatePRStatusLabel\<close>, for a pull request that is no longer a draft, leaves
  \<open>status:draft\<close> beside \<open>status:ready-for-review\<close>.
\<close>

theorem C2_competitor_beyond_first_page:
  "updateBuildStatusLabel noFaults ''success''
     \<lparr>issueLabels = areaLabels @ [\<lparr>name = ''qa:running''\<rparr>, \<lparr>name = ''status:draft''\<rparr>],
      prDraft = False, prNodeId = ''PR_1'', requests = []\<rparr>
   = (Inr (),
      \<lparr>issueLabels = areaLabels @ [\<lparr>name = ''qa:running''\<rparr>, \<lparr>name = ''status:draft''\<rparr>,
                                   \<lparr>name = ''qa:success''\<rparr>],
       prDraft = False, prNodeId = ''PR_1'',
       requests = [ListLabelsOnIssue, AddLabels [''qa:success'']]\<rparr>)
 \<and> filter (\<lambda>n. n \<in> set QA_LABEL_NAMES)
      (labelNames (issueLabels (snd (updateBuildStatusLabel noFaults ''success''
         \<lparr>issueLabels = areaLabels @ [\<lparr>name = ''qa:running''\<rparr>, \<lparr>name = ''status:draft''\<rparr>],
          prDraft = False, prNodeId = ''PR_1'', requests = []\<rparr>))))
     = [''qa:running'', ''qa:success'']
 \<and> updatePRStatusLabel noFaults False False ''success'' False False
     \<lparr>issueLabels = areaLabels @ [\<lparr>name = ''qa:running''\<rparr>, \<lparr>name = ''status:draft''\<rparr>],
      prDraft = False, prNodeId = ''PR_1'', requests = []\<rparr>
   = (Inr (),
      \<lparr>issueLabels = areaLabels @ [\<lparr>name = ''qa:running''\<rparr>, \<lparr>name = ''status:draft''\<rparr>,
                                   \<lparr>name = ''status:ready-for-review''\<rparr>],
       prDraft = False, prNodeId = ''PR_1'',
       requests = [ListLabelsOnIssue, AddLabels [''status:ready-for-review'']]\<rparr>)
 \<and> filter (\<lambda>n. n \<in> set STATUS_LABEL_NAMES)
      (labelNames (issueLabels (snd (updatePRStatusLabel noFaults False False ''success'' False False
         \<lparr>issueLabels = areaLabels @ [\<lparr>name = ''qa:running''\<rparr>, \<lparr>name = ''status:draft''\<rparr>],
          prDraft = False, prNodeId = ''PR_1'', requests = []\<rparr>))))
     = [''status:draft'', ''status:ready-for-review'']
 \<and> distinct (labelNames (areaLabels @ [\<lparr>name = ''qa:running''\<rparr>, \<lparr>name = ''status:draft''\<rparr>]))
 \<and> length (areaLabels @ [\<lparr>name = ''qa:running''\<rparr>, \<lparr>name = ''status:draft''\<rparr>]) = 32"
  by code_simp

text \<open>
  C3. The claim fails on a pull request that carries exactly one page of labels, the
  thirty of \<open>areaLabels\<close>. The first run for \<open>success\<close>, in which no request fails, adds
  \<open>qa:success\<close> as the thirty-first label. The second run reads the first thirty again,
  finds no QA label among them and issues \<open>addLabels\<close> a second time: a write. The same
  happens to \<open>updatePRStatusLabel\<close>.
\<close>

theorem C3_second_run_writes_again:
  "requests (snd (updateBuildStatusLabel noFaults ''success''
       (snd (updateBuildStatusLabel noFaults ''success''
          \<lparr>issueLabels = areaLabels, prDraft = False, prNodeId = ''PR_1'', requests = []\<rparr>))))
     = [ListLabelsOnIssue, AddLabels [''qa:success''],
        ListLabelsOnIssue, AddLabels [''qa:success'']]
 \<and> issueLabels (snd (updateBuildStatusLabel noFaults ''success''
          \<lparr>issueLabels = areaLabels, prDraft = False, prNodeId = ''PR_1'', requests = []\<rparr>))
     = areaLabels @ [\<lparr>name = ''qa:success''\<rparr>]
 \<and> requests (snd (updatePRStatusLabel noFaults False True ''success'' False False
       (snd (updatePRStatusLabel noFaults False True ''success'' False False
          \<lparr>issueLabels = areaLabels, prDraft = False, prNodeId = ''PR_1'', requests = []\<rparr>))))
     = [ListLabelsOnIssue, AddLabels [''status:mergeable''],
        ListLabelsOnIssue, AddLabels [''status:mergeable'']]
 \<and> distinct (labelNames areaLabels)
 \<and> length areaLabels = 30"
  by code_simp

section \<open>Properties of the status chain and of unrecognized statuses\<close>

lemma page_without_group:
  "filter P (labelNames ls) = [] \<Longrightarrow> filter P (labelNames (take n ls)) = []"
  by (auto simp: filter_empty_conv labelNames_def dest: in_set_takeD)

text \<open>
  C1. The status label \<open>updatePRStatusLabel\<close> aims for is the first match of the
  chain: merged, else abandoned, else draft, else approved with QA status "success"
  (mergeable), else approved, else ready-for-review. The last conjunct shows the label
  at work: on a pull request that carries no status label yet, a run without faults
  reads the labels and then adds exactly the label of the chain.
\<close>

theorem C1_desired_status_chain:
  "(isMerged \<longrightarrow>
      desiredStatusLabel isMerged isAbandoned isDraft hasApproval qaStatus = ''status:merged'')
 \<and> (\<not> isMerged \<and> isAbandoned \<longrightarrow>
      desiredStatusLabel isMerged isAbandoned isDraft hasApproval qaStatus = ''status:abandoned'')
 \<and> (\<not> isMerged \<and> \<not> isAbandoned \<and> isDraft \<longrightarrow>
      desiredStatusLabel isMerged isAbandoned isDraft hasApproval qaStatus = ''status:draft'')
 \<and> (\<not> isMerged \<and> \<not> isAbandoned \<and> \<not> isDraft \<and> hasApproval \<and> qaStatus = ''success'' \<longrightarrow>
      desiredStatusLabel isMerged isAbandoned isDraft hasApproval qaStatus = ''status:mergeable'')
 \<and> (\<not> isMerged \<and> \<not> isAbandoned \<and> \<not> isDraft \<and> hasApproval \<and> qaStatus \<noteq> ''success'' \<longrightarrow>
      desiredStatusLabel isMerged isAbandoned isDraft hasApproval qaStatus = ''status:approved'')
 \<and> (\<not> isMerged \<and> \<not> isAbandoned \<and> \<not> isDraft \<and> \<not> hasApproval \<longrightarrow>
      desiredStatusLabel isMerged isAbandoned isDraft hasApproval qaStatus = ''status:ready-for-review'')
 \<and> (filter (\<lambda>n. n \<in> set STATUS_LABEL_NAMES) (labelNames (issueLabels gh)) = [] \<longrightarrow>
      requests (snd (updatePRStatusLabel noFaults isDraft hasApproval qaStatus isMerged isAbandoned gh))
        = requests gh @
          [ListLabelsOnIssue,
           AddLabels [if isMerged then ''status:merged''
                      else if isAbandoned then ''status:abandoned''
                      else if isDraft then ''status:draft''
                      else if hasApproval \<and> qaStatus = ''success'' then ''status:mergeable''
                      else if hasApproval then ''status:approved''
                      else ''status:ready-for-review'']])"
proof -
  have chain: "desiredStatusLabel isMerged isAbandoned isDraft hasApproval qaStatus =
     (if isMerged then ''status:merged''
                      else if isAbandoned then ''status:abandoned''
                      else if isDraft then ''status:draft''
                      else if hasApproval \<and> qaStatus = ''success'' then ''status:mergeable''
                      else if hasApproval then ''status:approved''
                      else ''status:ready-for-review'')"
    by (simp add: desiredStatusLabel_def)
  have run: "requests (snd (updatePRStatusLabel noFaults isDraft hasApproval qaStatus isMerged isAbandoned gh))
        = requests gh @ [ListLabelsOnIssue,
            AddLabels [desiredStatusLabel isMerged isAbandoned isDraft hasApproval qaStatus]]"
    if "filter (\<lambda>n. n \<in> set STATUS_LABEL_NAMES) (labelNames (issueLabels gh)) = []"
    using page_without_group [OF that, of DEFAULT_PER_PAGE]
    by (simp add: updatePRStatusLabel_def Let_def listLabelsOnIssue_def desiredStatusLabel_nonempty
          addLabels_def noFaults_def request_def)
  show ?thesis
    using run unfolding chain by simp
qed


theorem C1_desired_status_witness:
  "desiredStatusLabel False False True False ''pending'' = ''status:draft''
 \<and> desiredStatusLabel True True True True ''success'' = ''status:merged''
 \<and> desiredStatusLabel False True True True ''success'' = ''status:abandoned''
 \<and> desiredStatusLabel False False False True ''success'' = ''status:mergeable''
 \<and> desiredStatusLabel False False False True ''failed'' = ''status:approved''
 \<and> desiredStatusLabel False False False False ''success'' = ''status:ready-for-review''
 \<and> requests (snd (updatePRStatusLabel noFaults True False ''pending'' False False
        \<lparr>issueLabels = [\<lparr>name = ''feat''\<rparr>], prDraft = True, prNodeId = ''PR_1'', requests = []\<rparr>))
      = [ListLabelsOnIssue, AddLabels [''status:draft'']]"
  using C1_desired_status_chain [of False False True False "''pending''"
          "\<lparr>issueLabels = [\<lparr>name = ''feat''\<rparr>], prDraft = True, prNodeId = ''PR_1'', requests = []\<rparr>"]
        C1_desired_status_chain [of True True True True "''success''"]
        C1_desired_status_chain [of False True True True "''success''"]
        C1_desired_status_chain [of False False False True "''success''"]
        C1_desired_status_chain [of False False False True "''failed''"]
        C1_desired_status_chain [of False False False False "''success''"]
  by (simp add: STATUS_LABEL_NAMES_def labelNames_def)

text \<open>
  C8. A \<open>workflowStatus\<close> outside pending, running, success, failure and cancelled makes
  \<open>updateBuildStatusLabel\<close> return at once: the result is normal and the GitHub state,
  with its record of requests, is the one it started from, whatever the fault table.
  The string "failed" is such a value, and it is what \<open>determineQAStatus\<close> answers on a
  pull-request event for a job result "failure" or "cancelled".
\<close>

theorem C8_unrecognized_status_noop:
  "(workflowStatus \<notin> {''pending'', ''running'', ''success'', ''failure'', ''cancelled''} \<longrightarrow>
      updateBuildStatusLabel faults workflowStatus gh = (Inr (), gh))
 \<and> updateBuildStatusLabel faults ''failed'' gh = (Inr (), gh)
 \<and> (eventName \<noteq> ''pull_request_review'' \<longrightarrow>
      determineQAStatus getPr eventName (Some ''failure'') secretScanningResult = Inr ''failed''
    \<and> determineQAStatus getPr eventName (Some ''cancelled'') secretScanningResult = Inr ''failed'')"
  by (simp add: updateBuildStatusLabel_def desiredQaLabel_def determineQAStatus_def
        qaStatusFromResult_def)

theorem C8_unrecognized_status_witness:
  "''failed'' \<notin> {''pending'', ''running'', ''success'', ''failure'', ''cancelled''}
 \<and> determineQAStatus (Inr \<lparr>labels = [], draft = False, node_id = ''PR_1''\<rparr>) ''pull_request''
       (Some ''failure'') None = Inr ''failed''
 \<and> updateBuildStatusLabel noFaults ''failed''
       \<lparr>issueLabels = [\<lparr>name = ''qa:running''\<rparr>], prDraft = False, prNodeId = ''PR_1'', requests = []\<rparr>
     = (Inr (), \<lparr>issueLabels = [\<lparr>name = ''qa:running''\<rparr>], prDraft = False, prNodeId = ''PR_1'',
                  requests = []\<rparr>)"
  using C8_unrecognized_status_noop [of "''failed''" noFaults
          "\<lparr>issueLabels = [\<lparr>name = ''qa:running''\<rparr>], prDraft = False, prNodeId = ''PR_1'', requests = []\<rparr>"
          "''pull_request''" "Inr \<lparr>labels = [], draft = False, node_id = ''PR_1''\<rparr>" None]
  by simp


section \<open>Properties of the desired reactions\<close>

text \<open>
  C5. When the merge flag is set or the label list contains \<open>status:merged\<close>,
  \<open>calculateDesiredReactions\<close> returns the empty list, whatever the other labels and
  whatever the two tables.
\<close>

theorem C5_merged_no_reactions:
  "isPRMerged \<or> ''status:merged'' \<in> set (labelNames lbls) \<longrightarrow>
     calculateDesiredReactions lbls isPRMerged statusReactions' exclusiveGroups' = Inr []"
  by (auto simp: calculateDesiredReactions_def list_ex_iff labelNames_def)

theorem C5_merged_no_reactions_witness:
  "''status:merged'' \<in> set (labelNames [\<lparr>name = ''qa:success''\<rparr>, \<lparr>name = ''status:merged''\<rparr>,
                                         \<lparr>name = ''status:approved''\<rparr>])
 \<and> calculateDesiredReactions [\<lparr>name = ''qa:success''\<rparr>, \<lparr>name = ''status:merged''\<rparr>,
                               \<lparr>name = ''status:approved''\<rparr>] False statusReactions exclusiveGroups
     = Inr []
 \<and> calculateDesiredReactions [\<lparr>name = ''qa:success''\<rparr>, \<lparr>name = ''status:approved''\<rparr>] True
       statusReactions exclusiveGroups
     = Inr []"
  using C5_merged_no_reactions [of False "[\<lparr>name = ''qa:success''\<rparr>, \<lparr>name = ''status:merged''\<rparr>,
                               \<lparr>name = ''status:approved''\<rparr>]" statusReactions exclusiveGroups]
        C5_merged_no_reactions [of True "[\<lparr>name = ''qa:success''\<rparr>, \<lparr>name = ''status:approved''\<rparr>]"
          statusReactions exclusiveGroups]
  by (simp add: labelNames_def)

lemma qa_group_lookup:
  "map_of exclusiveGroups ''qa'' = Some [''hourglass_flowing_sand'', ''runner'', ''white_check_mark'', ''x'']"
  by (simp add: exclusiveGroups_def)

lemma groupPriority_qa:
  "groupPriority ''qa'' = Inr [''qa:failed'', ''qa:success'', ''qa:running'', ''qa:pending'']"
  by (simp add: groupPriority_def)

lemma groupPriority_status:
  "groupPriority ''status'' =
     Inr [''status:merged'', ''status:mergeable'', ''status:approved'', ''status:ready-for-review'']"
  by (simp add: groupPriority_def)

text \<open>A group whose priority order is found lets the loop go on to the next group.\<close>

lemma selectGroups_step:
  assumes "groupPriority g = Inr priorityOrder"
  shows "\<exists>final'. selectGroups lbls table mapped ((g, rs) # rest) final
                  = selectGroups lbls table mapped rest final'"
proof (cases "selectReaction lbls table priorityOrder")
  case None
  with assms have "selectGroups lbls table mapped ((g, rs) # rest) final
                     = selectGroups lbls table mapped rest final"
    by simp
  then show ?thesis by blast
next
  case (Some r)
  show ?thesis
  proof (cases "r \<noteq> [] \<and> r \<in> set mapped")
    case True
    with assms Some have "selectGroups lbls table mapped ((g, rs) # rest) final
                            = selectGroups lbls table mapped rest (final @ [r])"
      by simp
    then show ?thesis by blast
  next
    case False
    with assms Some have "selectGroups lbls table mapped ((g, rs) # rest) final
                            = selectGroups lbls table mapped rest final"
      by auto
    then show ?thesis by blast
  qed
qed

lemma selectGroups_tables:
  "\<exists>final. selectGroups lbls statusReactions mapped exclusiveGroups [] = Inr final"
proof -
  obtain f1 where 1:
    "selectGroups lbls statusReactions mapped
       [(''qa'', [''hourglass_flowing_sand'', ''runner'', ''white_check_mark'', ''x'']),
        (''status'', [''eyes'', ''thumbsup'', ''rocket''])] []
     = selectGroups lbls statusReactions mapped [(''status'', [''eyes'', ''thumbsup'', ''rocket''])] f1"
    using selectGroups_step [OF groupPriority_qa] by blast
  obtain f2 where 2:
    "selectGroups lbls statusReactions mapped [(''status'', [''eyes'', ''thumbsup'', ''rocket''])] f1
     = selectGroups lbls statusReactions mapped [] f2"
    using selectGroups_step [OF groupPriority_status] by blast
  have "selectGroups lbls statusReactions mapped exclusiveGroups [] = Inr f2"
    unfolding exclusiveGroups_def 1 2 by (rule selectGroups.simps(1))
  then show ?thesis by blast
qed

lemma in_progress_filtered:
  assumes qa: "map_of exclusiveGroups' ''qa'' = Some qa"
    and prog: "''qa:running'' \<in> set (labelNames lbls) \<or> ''qa:pending'' \<in> set (labelNames lbls)"
    and loop: "\<And>mapped. \<exists>final. selectGroups lbls statusReactions' mapped exclusiveGroups' [] = Inr final"
  shows "\<exists>rs. calculateDesiredReactions lbls isPRMerged statusReactions' exclusiveGroups' = Inr rs
              \<and> set rs \<subseteq> set qa"
proof -
  let ?mapped = "concat (map (\<lambda>label.
                  (case map_of statusReactions' (name label) of
                     None \<Rightarrow> []
                   | Some r \<Rightarrow> if r \<noteq> [] then [r] else [])) lbls)"
  from loop obtain final
    where final: "selectGroups lbls statusReactions' ?mapped exclusiveGroups' [] = Inr final"
    by blast
  from prog have p: "list_ex (\<lambda>l. name l = ''qa:running'' \<or> name l = ''qa:pending'') lbls"
    by (auto simp: list_ex_iff labelNames_def)
  have "calculateDesiredReactions lbls isPRMerged statusReactions' exclusiveGroups' =
          (if list_ex (\<lambda>l. name l = ''status:merged'') lbls \<or> isPRMerged then Inr []
           else if final = [] then Inr []
           else Inr (filter (\<lambda>r. r \<in> set qa) final))"
    unfolding calculateDesiredReactions_def Let_def final
    by (simp only: p qa if_True option.case sum.case)
  then show ?thesis by auto
qed

text \<open>
  C6. With the tables of \<open>manageReactionsEfficiently\<close>, a label list that contains
  \<open>qa:running\<close> or \<open>qa:pending\<close> yields only reactions of the QA group; none of the
  status reactions eyes, thumbsup, rocket is in the result.
\<close>

theorem C6_in_progress_only_qa_reactions:
  "''qa:running'' \<in> set (labelNames lbls) \<or> ''qa:pending'' \<in> set (labelNames lbls) \<longrightarrow>
     (\<exists>rs. calculateDesiredReactions lbls isPRMerged statusReactions exclusiveGroups = Inr rs
          \<and> set rs \<subseteq> {''hourglass_flowing_sand'', ''runner'', ''white_check_mark'', ''x''}
          \<and> ''eyes'' \<notin> set rs \<and> ''thumbsup'' \<notin> set rs \<and> ''rocket'' \<notin> set rs)"
proof
  assume h: "''qa:running'' \<in> set (labelNames lbls) \<or> ''qa:pending'' \<in> set (labelNames lbls)"
  from in_progress_filtered [OF qa_group_lookup h selectGroups_tables]
  obtain rs where rs: "calculateDesiredReactions lbls isPRMerged statusReactions exclusiveGroups = Inr rs"
    and sub: "set rs \<subseteq> set [''hourglass_flowing_sand'', ''runner'', ''white_check_mark'', ''x'']"
    by blast
  from sub have "set rs \<subseteq> {''hourglass_flowing_sand'', ''runner'', ''white_check_mark'', ''x''}"
    by simp
  moreover from sub have "''eyes'' \<notin> set rs \<and> ''thumbsup'' \<notin> set rs \<and> ''rocket'' \<notin> set rs"
    by auto
  ultimately show "\<exists>rs. calculateDesiredReactions lbls isPRMerged statusReactions exclusiveGroups = Inr rs
          \<and> set rs \<subseteq> {''hourglass_flowing_sand'', ''runner'', ''white_check_mark'', ''x''}
          \<and> ''eyes'' \<notin> set rs \<and> ''thumbsup'' \<notin> set rs \<and> ''rocket'' \<notin> set rs"
    using rs by blast
qed

lemma in_progress_example:
  "calculateDesiredReactions [\<lparr>name = ''status:approved''\<rparr>, \<lparr>name = ''qa:running''\<rparr>] False
     statusReactions exclusiveGroups = Inr [''runner'']"
  by code_simp

lemma not_in_progress_example:
  "calculateDesiredReactions [\<lparr>name = ''status:approved''\<rparr>, \<lparr>name = ''qa:success''\<rparr>] False
     statusReactions exclusiveGroups = Inr [''white_check_mark'', ''thumbsup'']"
  by code_simp

theorem C6_in_progress_witness:
  "(''qa:running'' \<in> set (labelNames [\<lparr>name = ''status:approved''\<rparr>, \<lparr>name = ''qa:running''\<rparr>]))
 \<and> calculateDesiredReactions [\<lparr>name = ''status:approved''\<rparr>, \<lparr>name = ''qa:running''\<rparr>] False
       statusReactions exclusiveGroups = Inr [''runner'']
 \<and> (\<exists>rs. calculateDesiredReactions [\<lparr>name = ''status:approved''\<rparr>, \<lparr>name = ''qa:running''\<rparr>] False
             statusReactions exclusiveGroups = Inr rs
          \<and> set rs \<subseteq> {''hourglass_flowing_sand'', ''runner'', ''white_check_mark'', ''x''}
          \<and> ''eyes'' \<notin> set rs \<and> ''thumbsup'' \<notin> set rs \<and> ''rocket'' \<notin> set rs)"
proof -
  have h: "''qa:running'' \<in> set (labelNames [\<lparr>name = ''status:approved''\<rparr>, \<lparr>name = ''qa:running''\<rparr>])"
    by (simp add: labelNames_def)
  then have h': "''qa:running'' \<in> set (labelNames [\<lparr>name = ''status:approved''\<rparr>, \<lparr>name = ''qa:running''\<rparr>])
      \<or> ''qa:pending'' \<in> set (labelNames [\<lparr>name = ''status:approved''\<rparr>, \<lparr>name = ''qa:running''\<rparr>])"
    by (rule disjI1)
  from C6_in_progress_only_qa_reactions [rule_format, OF h', of False] h in_progress_example
  show ?thesis by (simp only: simp_thms)
qed


section \<open>Properties of the auto-merge manager\<close>

lemma catchHandler_returns: "fst (catchHandler err) = Inr ()"
  by (simp add: catchHandler_def)

lemma manageAutoMerge_returns:
  "fst (manageAutoMerge api prAuthorType hasApproval qaStatus isDraft mergeMethod) = Inr ()"
proof (cases "tryBody api hasApproval qaStatus isDraft
                (case mergeMethod of None \<Rightarrow> ''squash'' | Some m \<Rightarrow> m)
                (hasApproval \<and> qaStatus = ''success'' \<and> \<not> isDraft)")
  case (Pair r lines)
  show ?thesis
  proof (cases r)
    case (Inl err)
    obtain r' handled where c: "catchHandler err = (r', handled)"
      by (cases "catchHandler err")
    with catchHandler_returns [of err] have "r' = Inr ()" by simp
    with Pair Inl c show ?thesis
      by (simp add: manageAutoMerge_def Let_def)
  next
    case (Inr u)
    with Pair show ?thesis
      by (simp add: manageAutoMerge_def Let_def)
  qed
qed

text \<open>The error the \<open>try\<close> body ends with, if it throws.\<close>

lemma tryBody_throws:
  assumes "getPull api = Inl err
           \<or> (\<exists>pr. getPull api = Inr pr
                 \<and> graphql api (EnablePullRequestAutoMerge (node_id pr) (mergeMethodMap mm)) = Inl err)"
  shows "tryBody api True ''success'' False mm True = (Inl err, [LogEnabling])"
  using assms by (auto simp: tryBody_def)

lemma manageAutoMerge_caught:
  assumes "prAuthorType \<noteq> ''Bot''"
    and "getPull api = Inl err
           \<or> (\<exists>pr. getPull api = Inr pr
                 \<and> graphql api (EnablePullRequestAutoMerge (node_id pr)
                      (mergeMethodMap (case mergeMethod of None \<Rightarrow> ''squash'' | Some m \<Rightarrow> m))) = Inl err)"
  shows "manageAutoMerge api prAuthorType True ''success'' False mergeMethod =
           (Inr (), [LogManaging, LogCurrentState, LogMergeable True, LogEnabling] @ snd (catchHandler err))"
proof -
  obtain r' handled where c: "catchHandler err = (r', handled)"
    by (cases "catchHandler err")
  with catchHandler_returns [of err] have r': "r' = Inr ()" by simp
  show ?thesis
    using assms(1) tryBody_throws [OF assms(2)] c r'
    by (simp add: manageAutoMerge_def Let_def)
qed

text \<open>
  C10. \<open>manageAutoMerge\<close> returns normally for every outcome of its two API calls. When
  the pull request is mergeable and either call throws, the handler ends the log with one
  line: an informational one when the message contains "already enabled", and the
  error line carrying the message when none of the five known substrings occurs.
\<close>

theorem C10_manageAutoMerge_never_raises:
  "fst (manageAutoMerge api prAuthorType hasApproval qaStatus isDraft mergeMethod) = Inr ()
 \<and> (prAuthorType \<noteq> ''Bot''
      \<and> (getPull api = Inl err
           \<or> (\<exists>pr. getPull api = Inr pr
                 \<and> graphql api (EnablePullRequestAutoMerge (node_id pr)
                      (mergeMethodMap (case mergeMethod of None \<Rightarrow> ''squash'' | Some m \<Rightarrow> m))) = Inl err))
    \<longrightarrow>
      fst (manageAutoMerge api prAuthorType True ''success'' False mergeMethod) = Inr ()
    \<and> (str_includes (message err) ''already enabled'' \<longrightarrow>
          last (snd (manageAutoMerge api prAuthorType True ''success'' False mergeMethod))
            \<in> {LogAlreadyEnabled, LogAlreadyDisabled})
    \<and> (\<not> str_includes (message err) ''Auto-merge is not enabled''
        \<and> \<not> str_includes (message err) ''already enabled''
        \<and> \<not> str_includes (message err) ''Auto-merge is not allowed''
        \<and> \<not> str_includes (message err) ''Pull request is in clean status''
        \<and> \<not> str_includes (message err) ''Pull request is in dirty status'' \<longrightarrow>
          last (snd (manageAutoMerge api prAuthorType True ''success'' False mergeMethod))
            = LogErrorManaging (message err)))"
proof (intro conjI impI)
  show "fst (manageAutoMerge api prAuthorType hasApproval qaStatus isDraft mergeMethod) = Inr ()"
    by (rule manageAutoMerge_returns)
next
  assume "prAuthorType \<noteq> ''Bot''
      \<and> (getPull api = Inl err
           \<or> (\<exists>pr. getPull api = Inr pr
                 \<and> graphql api (EnablePullRequestAutoMerge (node_id pr)
                      (mergeMethodMap (case mergeMethod of None \<Rightarrow> ''squash'' | Some m \<Rightarrow> m))) = Inl err))"
  show "fst (manageAutoMerge api prAuthorType True ''success'' False mergeMethod) = Inr ()"
    by (rule manageAutoMerge_returns)
next
  assume a: "prAuthorType \<noteq> ''Bot''
      \<and> (getPull api = Inl err
           \<or> (\<exists>pr. getPull api = Inr pr
                 \<and> graphql api (EnablePullRequestAutoMerge (node_id pr)
                      (mergeMethodMap (case mergeMethod of None \<Rightarrow> ''squash'' | Some m \<Rightarrow> m))) = Inl err))"
    and inc: "str_includes (message err) ''already enabled''"
  from a have run: "manageAutoMerge api prAuthorType True ''success'' False mergeMethod =
           (Inr (), [LogManaging, LogCurrentState, LogMergeable True, LogEnabling] @ snd (catchHandler err))"
    by (intro manageAutoMerge_caught) simp_all
  show "last (snd (manageAutoMerge api prAuthorType True ''success'' False mergeMethod))
            \<in> {LogAlreadyEnabled, LogAlreadyDisabled}"
    unfolding run using inc by (simp add: catchHandler_def)
next
  assume a: "prAuthorType \<noteq> ''Bot''
      \<and> (getPull api = Inl err
           \<or> (\<exists>pr. getPull api = Inr pr
                 \<and> graphql api (EnablePullRequestAutoMerge (node_id pr)
                      (mergeMethodMap (case mergeMethod of None \<Rightarrow> ''squash'' | Some m \<Rightarrow> m))) = Inl err))"
    and none: "\<not> str_includes (message err) ''Auto-merge is not enabled''
        \<and> \<not> str_includes (message err) ''already enabled''
        \<and> \<not> str_includes (message err) ''Auto-merge is not allowed''
        \<and> \<not> str_includes (message err) ''Pull request is in clean status''
        \<and> \<not> str_includes (message err) ''Pull request is in dirty status''"
  from a have run: "manageAutoMerge api prAuthorType True ''success'' False mergeMethod =
           (Inr (), [LogManaging, LogCurrentState, LogMergeable True, LogEnabling] @ snd (catchHandler err))"
    by (intro manageAutoMerge_caught) simp_all
  show "last (snd (manageAutoMerge api prAuthorType True ''success'' False mergeMethod))
            = LogErrorManaging (message err)"
    unfolding run using none by (simp add: catchHandler_def)
qed

lemma already_enabled_message:
  "str_includes ''Pull request Auto merge is already enabled'' ''already enabled''"
  by code_simp


theorem C10_manageAutoMerge_witness:
  "''User'' \<noteq> ''Bot''
 \<and> str_includes ''Pull request Auto merge is already enabled'' ''already enabled''
 \<and> fst (manageAutoMerge
        \<lparr>getPull = Inr \<lparr>labels = [], draft = False, node_id = ''PR_kwDO''\<rparr>,
          graphql = (\<lambda>c. Inl (Error ''Pull request Auto merge is already enabled''))\<rparr>
        ''User'' True ''success'' False None) = Inr ()
 \<and> last (snd (manageAutoMerge
        \<lparr>getPull = Inr \<lparr>labels = [], draft = False, node_id = ''PR_kwDO''\<rparr>,
          graphql = (\<lambda>c. Inl (Error ''Pull request Auto merge is already enabled''))\<rparr>
        ''User'' True ''success'' False None)) \<in> {LogAlreadyEnabled, LogAlreadyDisabled}"
  using C10_manageAutoMerge_never_raises
          [of "\<lparr>getPull = Inr \<lparr>labels = [], draft = False, node_id = ''PR_kwDO''\<rparr>,
                 graphql = (\<lambda>c. Inl (Error ''Pull request Auto merge is already enabled''))\<rparr>"
              "''User''" True "''success''" False None
              "Error ''Pull request Auto merge is already enabled''"]
        already_enabled_message
  by simp

section \<open>The labeler on a title with an exclamation mark\<close>

lemma feat_bang_not_deps: "depsPattern ''feat!: new flow'' = []"
  by code_simp

lemma feat_bang_no_type: "typeMatch ''feat!: new flow'' = None"
  by code_simp

lemma feat_bang_breaking: "breakingMatch ''feat!: new flow'' = Some ''feat''"
  by code_simp

text \<open>
  The same patterns on the titles without \<open>!\<close>: the type is found, a scope is
  skipped, and a dependency title is caught by the first pattern.
\<close>

lemma plain_feat_type: "typeMatch ''feat: new flow'' = Some ''feat''"
  by code_simp

lemma scoped_fix_type:
  "depsPattern ''fix(api): handle nulls'' = [] \<and> typeMatch ''fix(api): handle nulls'' = Some ''fix''
   \<and> breakingMatch ''fix(api): handle nulls'' = None"
  by code_simp

lemma deps_title: "depsPattern ''chore(deps): bump lodash'' \<noteq> []"
  by code_simp

text \<open>
  C4. The title \<open>feat!: new flow\<close>. The type pattern asks for a colon right after the
  type or the scope, so it does not match a title with \<open>!\<close> before the colon and the type
  label falls back to \<open>chore\<close>; the breaking pattern does match. For every body and
  every pull request, the labels sent to GitHub are \<open>chore\<close>, \<open>breaking\<close> and the
  draft-or-ready label: \<open>feat\<close> is not among them.
\<close>

theorem C4_feat_bang_labelled_chore:
  "analyzePRAndApplyLabels noFaults ''feat!: new flow'' prBody gh =
     (Inr (),
      gh\<lparr>issueLabels :=
            fold putLabel [''chore'', ''breaking'',
                           if prDraft gh then ''status:draft'' else ''status:ready-for-review'']
              (issueLabels gh),
          requests := requests gh @
            [PullsGet,
             AddLabels [''chore'', ''breaking'',
                        if prDraft gh then ''status:draft'' else ''status:ready-for-review'']]\<rparr>)"
  by (simp add: analyzePRAndApplyLabels_def feat_bang_not_deps feat_bang_no_type feat_bang_breaking
        pullsGet_def addLabels_def noFaults_def request_def)

theorem C4_feat_bang_witness:
  "analyzePRAndApplyLabels noFaults ''feat!: new flow'' (Some ''adds the new flow'')
     \<lparr>issueLabels = [], prDraft = False, prNodeId = ''PR_1'', requests = []\<rparr>
   = (Inr (),
      \<lparr>issueLabels = [\<lparr>name = ''chore''\<rparr>, \<lparr>name = ''breaking''\<rparr>,
                      \<lparr>name = ''status:ready-for-review''\<rparr>],
       prDraft = False, prNodeId = ''PR_1'',
       requests = [PullsGet, AddLabels [''chore'', ''breaking'', ''status:ready-for-review'']]\<rparr>)"
  using C4_feat_bang_labelled_chore [of "Some ''adds the new flow''"
          "\<lparr>issueLabels = [], prDraft = False, prNodeId = ''PR_1'', requests = []\<rparr>"]
  by (simp add: putLabel_def labelNames_def)

end
